theory Spec2Isabelle
  imports Main "HOL-Library.Word" "HOL-Library.Sublist"
begin

unbundle bit_operations_syntax

section \<open>The local directory source of img (source/local/local.go)\<close>

text \<open>
  The handler of a local directory answers two questions: \<open>CacheKey\<close>, a string that
  discriminates build-graph nodes, and \<open>Snapshot\<close>, an immutable ref holding the
  directory's current contents. Both are embedded here as HOL functions. The
  collaborators that \<open>Snapshot\<close> drives (cache manager, metadata store, mounter,
  content-hash context, directory copier) are libraries outside local.go; they are
  modelled as an in-memory store that records every call made to it.
\<close>

subsection \<open>Identifiers, handlers, contexts and errors\<close>

text \<open>
  \<open>source.LocalIdentifier\<close>. A Go slice is either nil or a sequence, and the two
  serialise differently, so a pattern list is an optional list: \<open>None\<close> is nil.
\<close>

record LocalIdentifier =
  Name :: string
  SessionID :: string
  IncludePatterns :: "string list option"
  ExcludePatterns :: "string list option"
  SharedKeyHint :: string

text \<open>\<open>localSourceHandler\<close>: the identifier and, from the embedded \<open>localSource\<close>,
  the map \<open>ld\<close> from directory names to host paths.\<close>

record localSourceHandler =
  src :: LocalIdentifier
  ld :: "string \<rightharpoonup> string"

text \<open>Reading a Go map at a key it does not hold yields the zero value, the empty string.\<close>

definition map_index :: "(string \<rightharpoonup> string) \<Rightarrow> string \<Rightarrow> string" where
  "map_index m k = (case m k of None \<Rightarrow> [] | Some v \<Rightarrow> v)"

text \<open>The operation context carries the session id; \<open>session.FromContext\<close> reads it
  and yields the empty string when there is none.\<close>

datatype ctx = Ctx string

fun session_FromContext :: "ctx \<Rightarrow> string" where
  "session_FromContext (Ctx sid) = sid"

text \<open>
  Refs are named by ids (numbers here; the cache manager hands out a fresh one for every
  new ref). A metadata value is a JSON payload and the index it is filed under
  (\<open>metadata.Value\<close>); the payload is kept as the JSON value it encodes.
\<close>

type_synonym ref_id = nat

datatype json = JNull | JString string | JOther

record md_value =
  Value :: json
  Index :: string

text \<open>The calls \<open>Snapshot\<close> makes to its collaborators, with their arguments. \<open>New\<close>
  carries the description and the id the cache manager allocates for the new ref.\<close>

datatype call =
    Search string
  | GetMutable ref_id
  | New string ref_id
  | Mount ref_id
  | LocalMount ref_id
  | GetCacheContext ref_id
  | CopyDir string string LocalIdentifier
  | Unmount ref_id
  | SetCacheContext ref_id
  | SetValue ref_id string md_value
  | Commit ref_id
  | Release ref_id

text \<open>An error is the one local.go creates itself (no session), or the error returned
  by a collaborator's call, which \<open>Snapshot\<close> and \<open>CacheKey\<close> pass on unchanged.\<close>

datatype error = NoSession | UnmarshalError | Failed call

subsection \<open>encoding/json: the serialisation used by CacheKey\<close>

text \<open>
  \<open>json.Marshal\<close> of a struct of one string and two string slices. Strings are
  written by the encoder's string routine: bytes below 0x80 that are in \<open>htmlSafeSet\<close>
  are copied, the others are escaped; from 0x80 on the input is decoded as UTF-8, an
  invalid byte becomes the six characters of the escape for U+FFFD, U+2028 and U+2029
  are escaped, and every other rune is copied. The encoder is that of the Go releases
  this code was written for: it has short escapes for the backslash, the quote, newline,
  carriage return and tab, and writes every other escaped byte with \<open>u00\<close> and two
  hexadecimal digits.
\<close>

definition hex :: string where
  "hex = ''0123456789abcdef''"

definition RuneError :: nat where
  "RuneError = 0xFFFD"

definition htmlSafeSet :: "char \<Rightarrow> bool" where
  "htmlSafeSet b \<longleftrightarrow>
     0x20 \<le> (of_char b :: nat) \<and> (of_char b :: nat) < 0x80 \<and>
     b \<noteq> CHR 0x22 \<and> b \<noteq> CHR 0x26 \<and> b \<noteq> CHR 0x3C \<and> b \<noteq> CHR 0x3E \<and> b \<noteq> CHR 0x5C"

text \<open>\<open>utf8.DecodeRuneInString\<close>: the rune and the number of bytes it takes. The masks
  and shifts of the source are written as \<open>mod\<close> and multiplication.\<close>

definition DecodeRuneInString :: "string \<Rightarrow> nat \<times> nat" where
  "DecodeRuneInString s =
     (case s of
        [] \<Rightarrow> (RuneError, 0)
      | c0 # t \<Rightarrow>
          (let s0 = (of_char c0 :: nat) in
           if s0 < 0x80 then (s0, 1)
           else if s0 < 0xC2 \<or> 0xF4 < s0 then (RuneError, 1)
           else
             (let sz = (if s0 < 0xE0 then 2 else if s0 < 0xF0 then 3 else (4::nat));
                  lo = (if s0 = 0xE0 then 0xA0 else if s0 = 0xF0 then 0x90 else (0x80::nat));
                  hi = (if s0 = 0xED then 0x9F else if s0 = 0xF4 then 0x8F else (0xBF::nat))
              in if length s < sz then (RuneError, 1)
                 else
                   (let s1 = (of_char (t ! 0) :: nat) in
                    if s1 < lo \<or> hi < s1 then (RuneError, 1)
                    else if sz \<le> 2 then (s0 mod 32 * 64 + s1 mod 64, 2)
                    else
                      (let s2 = (of_char (t ! 1) :: nat) in
                       if s2 < 0x80 \<or> 0xBF < s2 then (RuneError, 1)
                       else if sz \<le> 3 then (s0 mod 16 * 4096 + s1 mod 64 * 64 + s2 mod 64, 3)
                       else
                         (let s3 = (of_char (t ! 2) :: nat) in
                          if s3 < 0x80 \<or> 0xBF < s3 then (RuneError, 1)
                          else (s0 mod 8 * 262144 + s1 mod 64 * 4096 + s2 mod 64 * 64
                                  + s3 mod 64, 4)))))))"

text \<open>The escape written for a byte below 0x80 that is not in \<open>htmlSafeSet\<close>.\<close>

definition escape_byte :: "char \<Rightarrow> string" where
  "escape_byte b =
     (if b = CHR 0x5C \<or> b = CHR 0x22 then [CHR 0x5C, b]
      else if b = CHR 0x0A then [CHR 0x5C, CHR ''n'']
      else if b = CHR 0x0D then [CHR 0x5C, CHR ''r'']
      else if b = CHR 0x09 then [CHR 0x5C, CHR ''t'']
      else [CHR 0x5C, CHR ''u'', CHR ''0'', CHR ''0'',
            hex ! (of_char b div 16), hex ! (of_char b mod 16)])"

text \<open>One turn of the encoder's loop: the bytes written and the input left.\<close>

definition string_step :: "string \<Rightarrow> string \<times> string" where
  "string_step s =
     (let b = hd s in
      if (of_char b :: nat) < 0x80 then
        (if htmlSafeSet b then ([b], tl s) else (escape_byte b, tl s))
      else
        (case DecodeRuneInString s of (c, width) \<Rightarrow>
           if c = RuneError \<and> width = 1 then
             ([CHR 0x5C, CHR ''u'', CHR ''f'', CHR ''f'', CHR ''f'', CHR ''d''], drop width s)
           else if c = 0x2028 \<or> c = 0x2029 then
             ([CHR 0x5C, CHR ''u'', CHR ''2'', CHR ''0'', CHR ''2'', hex ! (c mod 16)],
              drop width s)
           else (take width s, drop width s)))"

lemma DecodeRuneInString_size: "s \<noteq> [] \<Longrightarrow> 0 < snd (DecodeRuneInString s)"
  by (cases s) (simp_all add: DecodeRuneInString_def Let_def)

lemma string_step_shorter: "s \<noteq> [] \<Longrightarrow> length (snd (string_step s)) < length s"
  using DecodeRuneInString_size [of s]
  by (auto simp: string_step_def Let_def split: prod.splits)

function string_loop :: "string \<Rightarrow> string" where
  "string_loop s =
     (if s = [] then []
      else (case string_step s of (out, rest) \<Rightarrow> out @ string_loop rest))"
  by pat_completeness auto
termination
proof (relation "measure length", goal_cases)
  case 1
  show ?case by simp
next
  case (2 s out rest)
  then show ?case
    using string_step_shorter [of s] by (cases "string_step s") auto
qed

text \<open>\<open>utf8.ValidString\<close>: a string is valid UTF-8 when no position of it decodes to an
  invalid byte.\<close>

function utf8_ValidString :: "string \<Rightarrow> bool" where
  "utf8_ValidString s =
     (if s = [] then True
      else (case DecodeRuneInString s of (c, n) \<Rightarrow>
              \<not> (c = RuneError \<and> n = 1) \<and> utf8_ValidString (drop n s)))"
  by pat_completeness auto
termination
proof (relation "measure length", goal_cases)
  case 1
  show ?case by simp
next
  case (2 s c n)
  then show ?case
    using DecodeRuneInString_size [of s] by (cases "DecodeRuneInString s") auto
qed

definition encode_string :: "string \<Rightarrow> string" where
  "encode_string s = [CHR 0x22] @ string_loop s @ [CHR 0x22]"

text \<open>A slice: \<open>null\<close> when nil, else the elements between brackets, a comma before
  every element but the first.\<close>

fun encode_elems :: "string list \<Rightarrow> string" where
  "encode_elems [] = []"
| "encode_elems [x] = encode_string x"
| "encode_elems (x # y # ys) = encode_string x @ '','' @ encode_elems (y # ys)"

definition encode_slice :: "string list option \<Rightarrow> string" where
  "encode_slice xs = (case xs of None \<Rightarrow> ''null'' | Some l \<Rightarrow> ''['' @ encode_elems l @ '']'')"

text \<open>The object, fields in the order of the struct's declaration.\<close>

definition field_name :: "string \<Rightarrow> string" where
  "field_name n = [CHR 0x22] @ n @ [CHR 0x22] @ '':''"

definition json_Marshal :: "string \<Rightarrow> string list option \<Rightarrow> string list option \<Rightarrow> error + string" where
  "json_Marshal sessionID includePatterns excludePatterns =
     Inr (''{'' @ field_name ''SessionID'' @ encode_string sessionID @ '','' @
          field_name ''IncludePatterns'' @ encode_slice includePatterns @ '','' @
          field_name ''ExcludePatterns'' @ encode_slice excludePatterns @ ''}'')"

subsection \<open>go-digest: the SHA-256 digest used by CacheKey\<close>

text \<open>
  \<open>digest.FromBytes(dt).String()\<close> is the canonical algorithm's name, a colon and the
  hexadecimal SHA-256 of \<open>dt\<close>. The hash is written out as crypto/sha256 computes it:
  the message is padded to whole 64-byte chunks, and each chunk is mixed into eight
  32-bit words by 64 rounds.
\<close>

type_synonym uint32 = "32 word"

type_synonym digest_h = "uint32 \<times> uint32 \<times> uint32 \<times> uint32 \<times> uint32 \<times> uint32 \<times> uint32 \<times> uint32"

definition rotr :: "nat \<Rightarrow> uint32 \<Rightarrow> uint32" where
  "rotr n x = drop_bit n x OR push_bit (32 - n) x"

definition sha256_K :: "uint32 list" where
  "sha256_K =
     [1116352408, 1899447441, 3049323471, 3921009573, 961987163, 1508970993, 2453635748, 
      2870763221, 3624381080, 310598401, 607225278, 1426881987, 1925078388, 2162078206, 
      2614888103, 3248222580, 3835390401, 4022224774, 264347078, 604807628, 770255983, 
      1249150122, 1555081692, 1996064986, 2554220882, 2821834349, 2952996808, 3210313671, 
      3336571891, 3584528711, 113926993, 338241895, 666307205, 773529912, 1294757372, 
      1396182291, 1695183700, 1986661051, 2177026350, 2456956037, 2730485921, 2820302411, 
      3259730800, 3345764771, 3516065817, 3600352804, 4094571909, 275423344, 430227734, 
      506948616, 659060556, 883997877, 958139571, 1322822218, 1537002063, 1747873779, 
      1955562222, 2024104815, 2227730452, 2361852424, 2428436474, 2756734187, 3204031479, 
      3329325298]"

definition sha256_init :: digest_h where
  "sha256_init =
     (1779033703, 3144134277, 1013904242, 2773480762,
      1359893119, 2600822924, 528734635, 1541459225)"

definition be_uint32 :: "char \<Rightarrow> char \<Rightarrow> char \<Rightarrow> char \<Rightarrow> uint32" where
  "be_uint32 a b c d =
     push_bit 24 (of_char a) OR push_bit 16 (of_char b) OR push_bit 8 (of_char c) OR of_char d"

fun chunk_words :: "string \<Rightarrow> uint32 list" where
  "chunk_words (a # b # c # d # p) = be_uint32 a b c d # chunk_words p"
| "chunk_words _ = []"

text \<open>The message schedule: \<open>n\<close> more words after the ones in \<open>w\<close>.\<close>

fun schedule :: "nat \<Rightarrow> uint32 list \<Rightarrow> uint32 list" where
  "schedule 0 w = w"
| "schedule (Suc n) w =
     (let i = length w;
          v1 = w ! (i - 2);
          t1 = rotr 17 v1 XOR rotr 19 v1 XOR drop_bit 10 v1;
          v2 = w ! (i - 15);
          t2 = rotr 7 v2 XOR rotr 18 v2 XOR drop_bit 3 v2
      in schedule n (w @ [t1 + w ! (i - 7) + t2 + w ! (i - 16)]))"

fun rounds :: "digest_h \<Rightarrow> (uint32 \<times> uint32) list \<Rightarrow> digest_h" where
  "rounds r [] = r"
| "rounds (a, b, c, d, e, f, g, h) ((k, w) # kws) =
     (let t1 = h + (rotr 6 e XOR rotr 11 e XOR rotr 25 e) + ((e AND f) XOR (NOT e AND g)) + k + w;
          t2 = (rotr 2 a XOR rotr 13 a XOR rotr 22 a) + ((a AND b) XOR (a AND c) XOR (b AND c))
      in rounds (t1 + t2, a, b, c, d + t1, e, f, g) kws)"

definition blockGeneric :: "digest_h \<Rightarrow> string \<Rightarrow> digest_h" where
  "blockGeneric r p =
     (case r of (h0, h1, h2, h3, h4, h5, h6, h7) \<Rightarrow>
        (case rounds r (zip sha256_K (schedule 48 (chunk_words p))) of
           (a, b, c, d, e, f, g, h) \<Rightarrow>
             (h0 + a, h1 + b, h2 + c, h3 + d, h4 + e, h5 + f, h6 + g, h7 + h)))"

fun blocks :: "nat \<Rightarrow> digest_h \<Rightarrow> string \<Rightarrow> digest_h" where
  "blocks 0 r p = r"
| "blocks (Suc n) r p = blocks n (blockGeneric r (take 64 p)) (drop 64 p)"

definition be_uint64 :: "64 word \<Rightarrow> string" where
  "be_uint64 v = map (\<lambda>i. char_of (uint (drop_bit (8 * (7 - i)) v))) [0..<8]"

text \<open>Padding: the byte 0x80, zero bytes up to 56 modulo 64, the length in bits.\<close>

definition sha256_pad :: "string \<Rightarrow> string" where
  "sha256_pad m =
     m @ [char_of (128::nat)] @ replicate ((119 - length m mod 64) mod 64) (char_of (0::nat))
       @ be_uint64 (of_nat (8 * length m))"

definition hex_uint32 :: "uint32 \<Rightarrow> string" where
  "hex_uint32 w = map (\<lambda>i. hex ! unat (drop_bit (4 * (7 - i)) w AND 15)) [0..<8]"

definition Sum256_hex :: "string \<Rightarrow> string" where
  "Sum256_hex m =
     (let p = sha256_pad m in
      case blocks (length p div 64) sha256_init p of
        (a, b, c, d, e, f, g, h) \<Rightarrow> concat (map hex_uint32 [a, b, c, d, e, f, g, h]))"

definition digest_FromBytes :: "string \<Rightarrow> string" where
  "digest_FromBytes dt = ''sha256:'' @ Sum256_hex dt"

subsection \<open>CacheKey\<close>

definition CacheKey :: "localSourceHandler \<Rightarrow> ctx \<Rightarrow> error + string" where
  "CacheKey ls c =
     (case (if SessionID (src ls) = [] then
              (let sid = session_FromContext c in
               if sid = [] then Inl NoSession else Inr sid)
            else Inr (SessionID (src ls))) of
        Inl e \<Rightarrow> Inl e
      | Inr sessionID \<Rightarrow>
          (case json_Marshal sessionID (IncludePatterns (src ls)) (ExcludePatterns (src ls)) of
             Inl err \<Rightarrow> Inl err
           | Inr dt \<Rightarrow> Inr (''session:'' @ Name (src ls) @ '':'' @ digest_FromBytes dt)))"

subsection \<open>The collaborators of Snapshot\<close>

text \<open>
  The collaborators are libraries (the cache manager, the metadata store, the mounter
  and the content-hash context of buildkit); they are modelled after the contracts that
  section 6 of the spec gives for them.
  The store: the cache manager's refs, the metadata store's records and index, the
  persisted content-hash contexts, the active local mounts, and the log of the calls
  made so far, each with whether it succeeded.
  A ref is \<open>Free\<close> (it can be acquired as a mutable ref), \<open>Held\<close> (a mutable ref of it
  is owned by an operation in flight) or \<open>Committed\<close> (owned by an immutable ref that its
  holder has not released yet).
\<close>

datatype ref_state = Free | Held | Committed

type_synonym cache_context = "(string \<times> string) list"

record world =
  refs :: "ref_id \<rightharpoonup> ref_state"
  next_id :: ref_id
  items :: "ref_id \<Rightarrow> (string \<rightharpoonup> md_value)"
  md_index :: "(string \<times> ref_id) list"
  contexts :: "ref_id \<Rightarrow> cache_context"
  mounts :: "ref_id list"
  calls :: "(call \<times> bool) list"

text \<open>
  What the store does not decide: which calls fail, the host path a local mount is made
  at, and what the copier's hashing callback makes of a content-hash context when it
  copies a host directory.
\<close>

record env =
  fails :: "call \<Rightarrow> bool"
  mount_dir :: "ref_id \<Rightarrow> string"
  hashed :: "string \<Rightarrow> cache_context \<Rightarrow> cache_context"

definition logged :: "call \<Rightarrow> bool \<Rightarrow> world \<Rightarrow> world" where
  "logged c ok w = w\<lparr>calls := calls w @ [(c, ok)]\<rparr>"

text \<open>\<open>md.Search\<close>: the ids filed under an index value, in the index's order.\<close>

definition md_Search :: "env \<Rightarrow> string \<Rightarrow> world \<Rightarrow> (error + ref_id list) \<times> world" where
  "md_Search e k w =
     (if fails e (Search k) then (Inl (Failed (Search k)), logged (Search k) False w)
      else (Inr (map snd (filter (\<lambda>p. fst p = k) (md_index w))), logged (Search k) True w))"

text \<open>\<open>cm.GetMutable\<close>: succeeds on a ref that exists and is not in use.\<close>

definition cm_GetMutable :: "env \<Rightarrow> ref_id \<Rightarrow> world \<Rightarrow> (error + ref_id) \<times> world" where
  "cm_GetMutable e i w =
     (if refs w i = Some Free \<and> \<not> fails e (GetMutable i)
      then (Inr i, logged (GetMutable i) True (w\<lparr>refs := (refs w)(i \<mapsto> Held)\<rparr>))
      else (Inl (Failed (GetMutable i)), logged (GetMutable i) False w))"

text \<open>\<open>cm.New\<close>: a fresh ref, held by the caller.\<close>

definition cm_New :: "env \<Rightarrow> string \<Rightarrow> world \<Rightarrow> (error + ref_id) \<times> world" where
  "cm_New e d w =
     (let i = next_id w in
      if fails e (New d i) then (Inl (Failed (New d i)), logged (New d i) False w)
      else (Inr i, logged (New d i) True (w\<lparr>refs := (refs w)(i \<mapsto> Held), next_id := Suc i\<rparr>)))"

text \<open>\<open>mutable.Mount\<close> and the local mounter's \<open>Mount\<close> and \<open>Unmount\<close>.\<close>

definition ref_Mount :: "env \<Rightarrow> ref_id \<Rightarrow> world \<Rightarrow> (error + ref_id) \<times> world" where
  "ref_Mount e m w =
     (if fails e (Mount m) then (Inl (Failed (Mount m)), logged (Mount m) False w)
      else (Inr m, logged (Mount m) True w))"

definition lm_Mount :: "env \<Rightarrow> ref_id \<Rightarrow> world \<Rightarrow> (error + string) \<times> world" where
  "lm_Mount e m w =
     (if fails e (LocalMount m) then (Inl (Failed (LocalMount m)), logged (LocalMount m) False w)
      else (Inr (mount_dir e m), logged (LocalMount m) True (w\<lparr>mounts := m # mounts w\<rparr>)))"

definition lm_Unmount :: "env \<Rightarrow> ref_id \<Rightarrow> world \<Rightarrow> (error + unit) \<times> world" where
  "lm_Unmount e m w =
     (if fails e (Unmount m) then (Inl (Failed (Unmount m)), logged (Unmount m) False w)
      else (Inr (), logged (Unmount m) True (w\<lparr>mounts := removeAll m (mounts w)\<rparr>)))"

text \<open>\<open>contenthash.GetCacheContext\<close> and \<open>SetCacheContext\<close>, on the ref's metadata.\<close>

definition GetCacheContext_of :: "env \<Rightarrow> ref_id \<Rightarrow> world \<Rightarrow> (error + cache_context) \<times> world" where
  "GetCacheContext_of e m w =
     (if fails e (GetCacheContext m)
      then (Inl (Failed (GetCacheContext m)), logged (GetCacheContext m) False w)
      else (Inr (contexts w m), logged (GetCacheContext m) True w))"

definition SetCacheContext_of :: "env \<Rightarrow> ref_id \<Rightarrow> cache_context \<Rightarrow> world \<Rightarrow> (error + unit) \<times> world" where
  "SetCacheContext_of e m cc w =
     (if fails e (SetCacheContext m)
      then (Inl (Failed (SetCacheContext m)), logged (SetCacheContext m) False w)
      else (Inr (), logged (SetCacheContext m) True (w\<lparr>contexts := (contexts w)(m := cc)\<rparr>)))"

text \<open>Modelled from the spec: \<open>fsutils.CopyDir\<close>, a function of this repository that is
  not among its sources here. The spec gives it as the filtered directory copier,
  \<open>Copy(hostSourcePath, destPath, filterSpec, hashCallback)\<close>, which returns an error or
  copies and feeds the files to the hashing callback; the callback updates the
  content-hash context that the \<open>cacheUpdater\<close> wraps.\<close>

definition fsutils_CopyDir ::
  "env \<Rightarrow> string \<Rightarrow> string \<Rightarrow> LocalIdentifier \<Rightarrow> cache_context \<Rightarrow> world \<Rightarrow> (error + cache_context) \<times> world" where
  "fsutils_CopyDir e source dest opt cc w =
     (if fails e (CopyDir source dest opt)
      then (Inl (Failed (CopyDir source dest opt)), logged (CopyDir source dest opt) False w)
      else (Inr (hashed e source cc), logged (CopyDir source dest opt) True w))"

text \<open>The metadata store: \<open>md.Get\<close> yields the record of an id (an empty one when the
  id has none), \<open>si.Get\<close> reads a key of it, \<open>v.Unmarshal\<close> decodes a value into a
  string, \<open>metadata.NewValue\<close> encodes one, and \<open>si.Update\<close> with \<open>si.SetValue\<close> writes
  a value under a key and files the record under the value's index.\<close>

definition md_Get :: "ref_id \<Rightarrow> world \<Rightarrow> (string \<rightharpoonup> md_value)" where
  "md_Get i w = items w i"

definition Unmarshal :: "md_value \<Rightarrow> error + string" where
  "Unmarshal v = (case Value v of JNull \<Rightarrow> Inr [] | JString s \<Rightarrow> Inr s | JOther \<Rightarrow> Inl UnmarshalError)"

definition metadata_NewValue :: "string \<Rightarrow> error + md_value" where
  "metadata_NewValue s = Inr \<lparr>Value = JString s, Index = []\<rparr>"

definition si_SetValue :: "env \<Rightarrow> ref_id \<Rightarrow> string \<Rightarrow> md_value \<Rightarrow> world \<Rightarrow> (error + unit) \<times> world" where
  "si_SetValue e i k v w =
     (if fails e (SetValue i k v) then (Inl (Failed (SetValue i k v)), logged (SetValue i k v) False w)
      else (Inr (), logged (SetValue i k v) True
              (w\<lparr>items := (items w)(i := (items w i)(k \<mapsto> v)),
                 md_index := (if Index v = [] \<or> (Index v, i) \<in> set (md_index w) then md_index w
                              else md_index w @ [(Index v, i)])\<rparr>)))"

text \<open>\<open>mutable.Commit\<close> hands the ref over to a new immutable ref; \<open>mutable.Release\<close>
  gives the ref up, so that it can be acquired again. The immutable ref is released by
  whoever holds it, outside \<open>Snapshot\<close>.\<close>

datatype immutable_ref = ImmutableRef ref_id

definition ref_Commit :: "env \<Rightarrow> ref_id \<Rightarrow> world \<Rightarrow> (error + immutable_ref) \<times> world" where
  "ref_Commit e m w =
     (if fails e (Commit m) then (Inl (Failed (Commit m)), logged (Commit m) False w)
      else (Inr (ImmutableRef m), logged (Commit m) True (w\<lparr>refs := (refs w)(m \<mapsto> Committed)\<rparr>)))"

definition ref_Release :: "env \<Rightarrow> ref_id \<Rightarrow> world \<Rightarrow> world" where
  "ref_Release e m w =
     (if fails e (Release m) then logged (Release m) False w
      else logged (Release m) True (w\<lparr>refs := (refs w)(m \<mapsto> Free)\<rparr>))"

definition immutable_Release :: "immutable_ref \<Rightarrow> world \<Rightarrow> world" where
  "immutable_Release r w = (case r of ImmutableRef m \<Rightarrow> w\<lparr>refs := (refs w)(m \<mapsto> Free)\<rparr>)"

subsection \<open>Snapshot\<close>

definition keySharedKey :: string where
  "keySharedKey = ''local.sharedKey''"

text \<open>Line 95: the shared key.\<close>

definition sharedKey_of :: "localSourceHandler \<Rightarrow> string" where
  "sharedKey_of ls =
     keySharedKey @ '':'' @ Name (src ls) @ '':'' @ SharedKeyHint (src ls) @ '':'' @
       map_index (ld ls) (Name (src ls))"

text \<open>Lines 102 to 108: the first ref of the search result that can be acquired.\<close>

fun reuse_loop :: "env \<Rightarrow> ref_id list \<Rightarrow> world \<Rightarrow> ref_id option \<times> world" where
  "reuse_loop e [] w = (None, w)"
| "reuse_loop e (si # sis) w =
     (case cm_GetMutable e si w of
        (Inr m, w') \<Rightarrow> (Some m, w')
      | (Inl err, w') \<Rightarrow> reuse_loop e sis w')"

text \<open>Lines 161 to 183: the shared key is stored on the ref's record unless the record
  is found to hold it already.\<close>

definition skipStoreSharedKey_of :: "(string \<rightharpoonup> md_value) \<Rightarrow> string \<Rightarrow> error + bool" where
  "skipStoreSharedKey_of si sharedKey =
     (case si keySharedKey of
        Some v \<Rightarrow> (case Unmarshal v of Inl err \<Rightarrow> Inl err | Inr str \<Rightarrow> Inr (str = sharedKey))
      | None \<Rightarrow> Inr False)"

definition store_shared_key :: "env \<Rightarrow> ref_id \<Rightarrow> string \<Rightarrow> world \<Rightarrow> (error + unit) \<times> world" where
  "store_shared_key e m sharedKey w =
     (let si = md_Get m w in
      case skipStoreSharedKey_of si sharedKey of
        Inl err \<Rightarrow> (Inl err, w)
      | Inr skipStoreSharedKey \<Rightarrow>
          if \<not> skipStoreSharedKey then
            (case metadata_NewValue sharedKey of
               Inl err \<Rightarrow> (Inl err, w)
             | Inr v \<Rightarrow> si_SetValue e m sharedKey (v\<lparr>Index := sharedKey\<rparr>) w)
          else (Inr (), w))"

text \<open>
  Lines 143 to 192, the part under both deferred guards. Besides the result it yields
  the final values of the variables the guards read: \<open>mutable\<close> and \<open>lm\<close>, \<open>None\<close> for
  nil.
\<close>

definition copy_and_commit ::
  "env \<Rightarrow> localSourceHandler \<Rightarrow> string \<Rightarrow> ref_id \<Rightarrow> string \<Rightarrow> world
     \<Rightarrow> (error + immutable_ref) \<times> ref_id option \<times> ref_id option \<times> world" where
  "copy_and_commit e ls sharedKey m dest w =
     (case GetCacheContext_of e m w of
        (Inl err, w1) \<Rightarrow> (Inl err, Some m, Some m, w1)
      | (Inr cc, w1) \<Rightarrow>
     (case fsutils_CopyDir e (map_index (ld ls) (Name (src ls))) dest (src ls) cc w1 of
        (Inl err, w2) \<Rightarrow> (Inl err, Some m, Some m, w2)
      | (Inr cc', w2) \<Rightarrow>
     (case lm_Unmount e m w2 of
        (Inl err, w3) \<Rightarrow> (Inl err, Some m, Some m, w3)
      | (Inr u, w3) \<Rightarrow>
     (case SetCacheContext_of e m cc' w3 of
        (Inl err, w4) \<Rightarrow> (Inl err, Some m, None, w4)
      | (Inr u, w4) \<Rightarrow>
     (case store_shared_key e m sharedKey w4 of
        (Inl err, w5) \<Rightarrow> (Inl err, Some m, None, w5)
      | (Inr u, w5) \<Rightarrow>
     (case ref_Commit e m w5 of
        (Inl err, w6) \<Rightarrow> (Inl err, Some m, None, w6)
      | (Inr snap, w6) \<Rightarrow> (Inr snap, None, None, w6)))))))"

text \<open>Lines 125 to 141 and the second deferred function: the mount, and the unmount
  that runs when the call returns an error while \<open>lm\<close> is not nil.\<close>

definition mount_and_copy ::
  "env \<Rightarrow> localSourceHandler \<Rightarrow> string \<Rightarrow> ref_id \<Rightarrow> world
     \<Rightarrow> (error + immutable_ref) \<times> ref_id option \<times> world" where
  "mount_and_copy e ls sharedKey m w =
     (case ref_Mount e m w of
        (Inl err, w1) \<Rightarrow> (Inl err, Some m, w1)
      | (Inr mount, w1) \<Rightarrow>
     (case lm_Mount e mount w1 of
        (Inl err, w2) \<Rightarrow> (Inl err, Some m, w2)
      | (Inr dest, w2) \<Rightarrow>
     (case copy_and_commit e ls sharedKey m dest w2 of
        (retErr, mutable, lm, w3) \<Rightarrow>
          (retErr, mutable,
           (case lm of
              Some l \<Rightarrow> if isl retErr then snd (lm_Unmount e l w3) else w3
            | None \<Rightarrow> w3)))))"

text \<open>
  The first deferred function, around the rest of the body: it releases the ref when
  the call returns an error while \<open>mutable\<close> is not nil. The release is started in a
  goroutine of its own, and is taken here to have run when the call returns.
\<close>

definition release_guarded ::
  "env \<Rightarrow> localSourceHandler \<Rightarrow> string \<Rightarrow> ref_id \<Rightarrow> world \<Rightarrow> (error + immutable_ref) \<times> world" where
  "release_guarded e ls sharedKey m w =
     (case mount_and_copy e ls sharedKey m w of
        (retErr, mutable, w') \<Rightarrow>
          (retErr,
           (case mutable of
              Some r \<Rightarrow> if isl retErr then ref_Release e r w' else w'
            | None \<Rightarrow> w')))"

text \<open>The whole of \<open>Snapshot\<close>.\<close>

definition description :: "localSourceHandler \<Rightarrow> string" where
  "description ls = ''local source for '' @ Name (src ls)"

definition Snapshot :: "env \<Rightarrow> localSourceHandler \<Rightarrow> ctx \<Rightarrow> world \<Rightarrow> (error + immutable_ref) \<times> world" where
  "Snapshot e ls c w =
     (if session_FromContext c = [] then (Inl NoSession, w)
      else
        (let sharedKey = sharedKey_of ls in
         case md_Search e sharedKey w of
           (Inl err, w1) \<Rightarrow> (Inl err, w1)
         | (Inr sis, w1) \<Rightarrow>
        (case (case reuse_loop e sis w1 of
                 (Some m, w2) \<Rightarrow> (Inr m, w2)
               | (None, w2) \<Rightarrow> cm_New e (description ls) w2) of
           (Inl err, w3) \<Rightarrow> (Inl err, w3)
         | (Inr m, w3) \<Rightarrow> release_guarded e ls sharedKey m w3)))"

subsection \<open>What is observed of a run\<close>

text \<open>The calls one \<open>Snapshot\<close> adds to the log, in order, each with whether it
  succeeded.\<close>

definition trace :: "env \<Rightarrow> localSourceHandler \<Rightarrow> ctx \<Rightarrow> world \<Rightarrow> (call \<times> bool) list" where
  "trace e ls c w = drop (length (calls w)) (calls (snd (Snapshot e ls c w)))"

text \<open>A ref can be acquired when it exists, is not in use, and the call does not fail
  otherwise. The search result is what the index holds under the key.\<close>

definition acquirable :: "env \<Rightarrow> world \<Rightarrow> ref_id \<Rightarrow> bool" where
  "acquirable e w i \<longleftrightarrow> refs w i = Some Free \<and> \<not> fails e (GetMutable i)"

definition search_result :: "world \<Rightarrow> string \<Rightarrow> ref_id list" where
  "search_result w k = map snd (filter (\<lambda>p. fst p = k) (md_index w))"

text \<open>What is read off a list of calls: the refs acquired (reused or created), those
  committed, those a release was called for, the index values written, the refs an
  acquisition was attempted for, the creations attempted, and the copies invoked.\<close>

fun acquires :: "call \<times> bool \<Rightarrow> ref_id list" where
  "acquires (GetMutable i, True) = [i]"
| "acquires (New d i, True) = [i]"
| "acquires _ = []"

fun commits :: "call \<times> bool \<Rightarrow> ref_id list" where
  "commits (Commit i, True) = [i]"
| "commits _ = []"

fun releases :: "call \<times> bool \<Rightarrow> ref_id list" where
  "releases (Release i, ok) = [i]"
| "releases _ = []"

definition acquired :: "(call \<times> bool) list \<Rightarrow> ref_id list" where
  "acquired tr = concat (map acquires tr)"

definition committed :: "(call \<times> bool) list \<Rightarrow> ref_id list" where
  "committed tr = concat (map commits tr)"

definition released :: "(call \<times> bool) list \<Rightarrow> ref_id list" where
  "released tr = concat (map releases tr)"

fun index_write :: "call \<times> bool \<Rightarrow> (ref_id \<times> string \<times> md_value) list" where
  "index_write (SetValue i k v, True) = [(i, k, v)]"
| "index_write _ = []"

fun attempts :: "call \<times> bool \<Rightarrow> ref_id list" where
  "attempts (GetMutable i, ok) = [i]"
| "attempts _ = []"

fun creates :: "call \<times> bool \<Rightarrow> (string \<times> ref_id) list" where
  "creates (New d i, ok) = [(d, i)]"
| "creates _ = []"

fun copies :: "call \<times> bool \<Rightarrow> (string \<times> string \<times> LocalIdentifier) list" where
  "copies (CopyDir p d s, ok) = [(p, d, s)]"
| "copies _ = []"

definition index_writes :: "(call \<times> bool) list \<Rightarrow> (ref_id \<times> string \<times> md_value) list" where
  "index_writes tr = concat (map index_write tr)"

definition attempted :: "(call \<times> bool) list \<Rightarrow> ref_id list" where
  "attempted tr = concat (map attempts tr)"

definition created :: "(call \<times> bool) list \<Rightarrow> (string \<times> ref_id) list" where
  "created tr = concat (map creates tr)"

definition copied :: "(call \<times> bool) list \<Rightarrow> (string \<times> string \<times> LocalIdentifier) list" where
  "copied tr = concat (map copies tr)"

text \<open>The calls made before the first index value is written.\<close>

definition before_write :: "(call \<times> bool) list \<Rightarrow> (call \<times> bool) list" where
  "before_write tr = takeWhile (\<lambda>x. index_write x = []) tr"

text \<open>The calls of the guarded part of \<open>Snapshot\<close>, from the mount on.\<close>

definition tail_trace :: "env \<Rightarrow> localSourceHandler \<Rightarrow> string \<Rightarrow> ref_id \<Rightarrow> world \<Rightarrow> (call \<times> bool) list" where
  "tail_trace e ls k m w = drop (length (calls w)) (calls (snd (release_guarded e ls k m w)))"

subsection \<open>Reading the serialisation back\<close>

text \<open>
  \<open>unquote\<close> reads an encoded string up to its closing quote and undoes the escapes
  that the encoder writes for valid input. It is not part of the program: it serves to
  show that the encoder loses nothing on valid UTF-8.
\<close>

definition unhex :: "char \<Rightarrow> nat option" where
  "unhex c = (if c \<in> set hex then Some (length (takeWhile (\<lambda>x. x \<noteq> c) hex)) else None)"

definition unescape_u :: "string \<Rightarrow> string option" where
  "unescape_u q =
     (if q = ''2028'' then Some [CHR 0xE2, CHR 0x80, CHR 0xA8]
      else if q = ''2029'' then Some [CHR 0xE2, CHR 0x80, CHR 0xA9]
      else (case q of
              [a, b, c, d] \<Rightarrow>
                (if a = CHR ''0'' \<and> b = CHR ''0'' then
                   (case (unhex c, unhex d) of
                      (Some x, Some y) \<Rightarrow> Some [char_of (16 * x + y)]
                    | _ \<Rightarrow> None)
                 else None)
            | _ \<Rightarrow> None))"

definition unescape :: "char \<Rightarrow> char option" where
  "unescape e =
     (if e = CHR 0x5C \<or> e = CHR 0x22 then Some e
      else if e = CHR ''n'' then Some (CHR 0x0A)
      else if e = CHR ''r'' then Some (CHR 0x0D)
      else if e = CHR ''t'' then Some (CHR 0x09)
      else None)"

function unquote :: "string \<Rightarrow> (string \<times> string) option" where
  "unquote [] = None"
| "unquote (c # cs) =
     (if c = CHR 0x22 then Some ([], cs)
      else if c \<noteq> CHR 0x5C then map_option (apfst ((#) c)) (unquote cs)
      else (case cs of
              [] \<Rightarrow> None
            | e # es \<Rightarrow>
                if e = CHR ''u'' then
                  (case unescape_u (take 4 es) of
                     None \<Rightarrow> None
                   | Some bs \<Rightarrow> map_option (apfst ((@) bs)) (unquote (drop 4 es)))
                else
                  (case unescape e of
                     None \<Rightarrow> None
                   | Some b \<Rightarrow> map_option (apfst ((#) b)) (unquote es))))"
  by pat_completeness auto
termination
  by (relation "measure length") auto

subsection \<open>Inputs used in the examples\<close>

definition empty_world :: world where
  "empty_world =
     \<lparr>refs = Map.empty, next_id = 0, items = (\<lambda>_. Map.empty), md_index = [],
      contexts = (\<lambda>_. []), mounts = [], calls = []\<rparr>"

definition no_faults :: env where
  "no_faults = \<lparr>fails = (\<lambda>_. False), mount_dir = (\<lambda>_. ''/mnt''), hashed = (\<lambda>_ cc. cc)\<rparr>"

text \<open>The identifier of the spec's scenario: name \<open>work\<close>, hint \<open>v1\<close>, with the host
  path \<open>/tmp/src\<close> configured for the name; and one whose name is not configured.\<close>

definition work_v1 :: localSourceHandler where
  "work_v1 =
     \<lparr>src = \<lparr>Name = ''work'', SessionID = [], IncludePatterns = None,
              ExcludePatterns = None, SharedKeyHint = ''v1''\<rparr>,
      ld = [''work'' \<mapsto> ''/tmp/src'']\<rparr>"

definition nowhere_v1 :: localSourceHandler where
  "nowhere_v1 =
     \<lparr>src = \<lparr>Name = ''nowhere'', SessionID = [], IncludePatterns = None,
              ExcludePatterns = None, SharedKeyHint = ''v1''\<rparr>,
      ld = [''work'' \<mapsto> ''/tmp/src'']\<rparr>"

text \<open>Collaborators of which the commit, or the copy, fails.\<close>

definition commit_fails :: env where
  "commit_fails =
     \<lparr>fails = (\<lambda>c. case c of Commit i \<Rightarrow> True | _ \<Rightarrow> False),
      mount_dir = (\<lambda>_. ''/mnt''), hashed = (\<lambda>_ cc. cc)\<rparr>"

definition copy_fails :: env where
  "copy_fails =
     \<lparr>fails = (\<lambda>c. case c of CopyDir p d s \<Rightarrow> True | _ \<Rightarrow> False),
      mount_dir = (\<lambda>_. ''/mnt''), hashed = (\<lambda>_ cc. cc)\<rparr>"

text \<open>Stores whose index holds, under the shared key of \<open>work_v1\<close>, a ref that no
  longer exists (5), followed or not by one that can be acquired (7).\<close>

definition stale_and_live :: world where
  "stale_and_live =
     empty_world\<lparr>refs := [7 \<mapsto> Free], next_id := 8,
       md_index := [(''local.sharedKey:work:v1:/tmp/src'', 5),
                    (''local.sharedKey:work:v1:/tmp/src'', 7)]\<rparr>"

definition stale_only :: world where
  "stale_only =
     empty_world\<lparr>next_id := 8, md_index := [(''local.sharedKey:work:v1:/tmp/src'', 5)]\<rparr>"

text \<open>The store after a first \<open>Snapshot\<close> of \<open>work_v1\<close> on the empty store, once the
  caller has released the immutable ref it returned.\<close>

definition after_first :: world where
  "after_first =
     immutable_Release (ImmutableRef 0)
       (snd (Snapshot no_faults work_v1 (Ctx ''s1'') empty_world))"

text \<open>The session id \<open>CacheKey\<close> uses: the identifier's, or else the context's.\<close>

definition resolved_session :: "localSourceHandler \<Rightarrow> ctx \<Rightarrow> string" where
  "resolved_session ls c =
     (if SessionID (src ls) = [] then session_FromContext c else SessionID (src ls))"

text \<open>The JSON object \<open>CacheKey\<close> hashes.\<close>

definition key_object :: "string \<Rightarrow> string list option \<Rightarrow> string list option \<Rightarrow> string" where
  "key_object sid inc exc =
     ''{'' @ field_name ''SessionID'' @ encode_string sid @ '','' @
       field_name ''IncludePatterns'' @ encode_slice inc @ '','' @
       field_name ''ExcludePatterns'' @ encode_slice exc @ ''}''"

text \<open>Pattern lists of valid strings; two handlers that differ in the order of their
  include patterns only.\<close>

definition valid_patterns :: "string list option \<Rightarrow> bool" where
  "valid_patterns ps = (case ps of None \<Rightarrow> True | Some l \<Rightarrow> list_all utf8_ValidString l)"

definition work_go_md :: localSourceHandler where
  "work_go_md =
     \<lparr>src = \<lparr>Name = ''work'', SessionID = [], IncludePatterns = Some [''*.go'', ''*.md''],
              ExcludePatterns = None, SharedKeyHint = []\<rparr>,
      ld = Map.empty\<rparr>"

definition work_md_go :: localSourceHandler where
  "work_md_go =
     \<lparr>src = \<lparr>Name = ''work'', SessionID = [], IncludePatterns = Some [''*.md'', ''*.go''],
              ExcludePatterns = None, SharedKeyHint = []\<rparr>,
      ld = Map.empty\<rparr>"

section \<open>Properties\<close>

subsection \<open>Evaluating the string encoder\<close>

declare string_loop.simps [simp del]

lemma string_loop_Nil [simp]: "string_loop [] = []"
  by (simp add: string_loop.simps)

lemma string_loop_Cons:
  "string_loop (b # s) = (case string_step (b # s) of (out, rest) \<Rightarrow> out @ string_loop rest)"
  by (subst string_loop.simps) simp

lemma string_loop_safe [simp]:
  "htmlSafeSet b \<Longrightarrow> string_loop (b # s) = b # string_loop s"
  by (subst string_loop.simps) (simp add: string_step_def htmlSafeSet_def)

subsection \<open>The form of the cache key\<close>

text \<open>
  C2, as amended. \<open>CacheKey\<close> returns a string exactly when a session id is resolved,
  and the string is then the literal \<open>session:\<close>, the directory name, a colon, and the
  digest (\<open>sha256:\<close> and the hexadecimal SHA-256) of the JSON object holding the
  session id and the two pattern lists. The session id is inside the hash only.
\<close>

theorem CacheKey_is_name_and_digest:
  "CacheKey ls c = Inr k \<longleftrightarrow>
     resolved_session ls c \<noteq> [] \<and>
     k = ''session:'' @ Name (src ls) @ '':sha256:'' @
           Sum256_hex (key_object (resolved_session ls c)
                         (IncludePatterns (src ls)) (ExcludePatterns (src ls)))"
  by (auto simp: CacheKey_def resolved_session_def key_object_def json_Marshal_def
        digest_FromBytes_def Let_def)

text \<open>
  C2 as stated fails: for session id \<open>abc\<close> and name \<open>work\<close> the key starts with
  \<open>session:work:\<close>, not with the session id.
\<close>

theorem CacheKey_not_prefixed_by_session_id:
  "CacheKey \<lparr>src = \<lparr>Name = ''work'', SessionID = ''abc'', IncludePatterns = None,
                     ExcludePatterns = None, SharedKeyHint = []\<rparr>, ld = Map.empty\<rparr> (Ctx [])
     = Inr (''session:work:'' @ digest_FromBytes
              (''{'' @ field_name ''SessionID'' @ [CHR 0x22] @ ''abc'' @ [CHR 0x22] @ '','' @
               field_name ''IncludePatterns'' @ ''null,'' @
               field_name ''ExcludePatterns'' @ ''null}''))
   \<and> \<not> prefix ''abc'' (''session:work:'' @ digest_FromBytes
              (''{'' @ field_name ''SessionID'' @ [CHR 0x22] @ ''abc'' @ [CHR 0x22] @ '','' @
               field_name ''IncludePatterns'' @ ''null,'' @
               field_name ''ExcludePatterns'' @ ''null}''))"
  by (simp add: CacheKey_def json_Marshal_def encode_string_def encode_slice_def htmlSafeSet_def)

subsection \<open>Failing for want of a session\<close>

lemmas collab_defs = md_Search_def cm_GetMutable_def cm_New_def ref_Mount_def lm_Mount_def
  lm_Unmount_def GetCacheContext_of_def SetCacheContext_of_def fsutils_CopyDir_def md_Get_def
  Unmarshal_def metadata_NewValue_def si_SetValue_def ref_Commit_def ref_Release_def

lemma store_shared_key_not_NoSession: "store_shared_key e m k w \<noteq> (Inl NoSession, w')"
  by (auto simp: store_shared_key_def skipStoreSharedKey_of_def collab_defs Let_def
        split: option.splits json.splits)

lemma copy_and_commit_not_NoSession: "copy_and_commit e ls k m d w \<noteq> (Inl NoSession, x)"
  by (auto simp: copy_and_commit_def store_shared_key_not_NoSession collab_defs Let_def
        split: prod.splits sum.splits)

lemma mount_and_copy_not_NoSession: "mount_and_copy e ls k m w \<noteq> (Inl NoSession, x)"
  by (auto simp: mount_and_copy_def copy_and_commit_not_NoSession ref_Mount_def lm_Mount_def
        split: prod.splits sum.splits)

text \<open>
  C3, as amended. \<open>CacheKey\<close> fails with \<open>NoSession\<close> exactly when neither the
  identifier nor the context gives a session id. \<open>Snapshot\<close> fails with \<open>NoSession\<close>
  exactly when the context gives none, whatever the identifier carries.
\<close>

theorem NoSession_exactly_when:
  "(CacheKey ls c = Inl NoSession \<longleftrightarrow> SessionID (src ls) = [] \<and> session_FromContext c = []) \<and>
   (fst (Snapshot e ls c w) = Inl NoSession \<longleftrightarrow> session_FromContext c = [])"
proof
  show "CacheKey ls c = Inl NoSession \<longleftrightarrow> SessionID (src ls) = [] \<and> session_FromContext c = []"
    by (auto simp: CacheKey_def json_Marshal_def Let_def)
  show "fst (Snapshot e ls c w) = Inl NoSession \<longleftrightarrow> session_FromContext c = []"
    by (auto simp: Snapshot_def release_guarded_def mount_and_copy_not_NoSession md_Search_def
          cm_New_def Let_def split: prod.splits sum.splits option.splits)
qed

text \<open>
  C3 as stated fails for \<open>Snapshot\<close>: with session id \<open>abc\<close> on the identifier and none
  in the context, \<open>Snapshot\<close> fails with \<open>NoSession\<close>, where \<open>CacheKey\<close> returns a key.
\<close>

theorem Snapshot_ignores_identifier_session:
  "fst (Snapshot no_faults
          \<lparr>src = \<lparr>Name = ''work'', SessionID = ''abc'', IncludePatterns = None,
                   ExcludePatterns = None, SharedKeyHint = []\<rparr>, ld = Map.empty\<rparr>
          (Ctx []) empty_world) = Inl NoSession
   \<and> isl (CacheKey
          \<lparr>src = \<lparr>Name = ''work'', SessionID = ''abc'', IncludePatterns = None,
                   ExcludePatterns = None, SharedKeyHint = []\<rparr>, ld = Map.empty\<rparr>
          (Ctx [])) = False"
  by (simp add: Snapshot_def CacheKey_def json_Marshal_def)

subsection \<open>The calls of a Snapshot\<close>

text \<open>The loop stops at the first ref it can acquire; failed attempts change nothing
  but the log.\<close>

lemma reuse_loop_run:
  "case reuse_loop e sis w of (r, w') \<Rightarrow>
     r = find (acquirable e w) sis \<and>
     calls w' = calls w @ map (\<lambda>i. (GetMutable i, False)) (takeWhile (Not \<circ> acquirable e w) sis)
                  @ (case r of Some m \<Rightarrow> [(GetMutable m, True)] | None \<Rightarrow> []) \<and>
     items w' = items w \<and> next_id w' = next_id w"
proof (induction sis arbitrary: w)
  case Nil
  show ?case by simp
next
  case (Cons i sis)
  show ?case
  proof (cases "acquirable e w i")
    case True
    then show ?thesis
      by (simp add: cm_GetMutable_def acquirable_def logged_def)
  next
    case False
    let ?w1 = "logged (GetMutable i) False w"
    have same: "acquirable e ?w1 = acquirable e w"
      by (simp add: acquirable_def logged_def fun_eq_iff)
    have w1: "calls ?w1 = calls w @ [(GetMutable i, False)]" "items ?w1 = items w"
      "next_id ?w1 = next_id w"
      by (simp_all add: logged_def)
    from False have step: "reuse_loop e (i # sis) w = reuse_loop e sis ?w1"
      by (auto simp: cm_GetMutable_def acquirable_def)
    show ?thesis
      unfolding step using Cons.IH [of ?w1] False
      by (simp add: same w1 split: prod.splits)
  qed
qed

lemma release_guarded_grows:
  "\<exists>t. calls (snd (release_guarded e ls k m w)) = calls w @ t"
  by (simp add: release_guarded_def mount_and_copy_def copy_and_commit_def store_shared_key_def
        skipStoreSharedKey_of_def collab_defs logged_def Let_def split: option.split json.split)


lemma concat_map_empty [simp]: "concat (map (\<lambda>_. []) xs) = []"
  by (induction xs) simp_all

lemma find_None_takeWhile: "find P xs = None \<Longrightarrow> takeWhile (Not \<circ> P) xs = xs"
  by (induction xs) (auto split: if_splits)

lemma trace_via_tail:
  assumes "Snapshot e ls c w = release_guarded e ls k m w3" "calls w3 = calls w @ pre"
  shows "trace e ls c w = pre @ tail_trace e ls k m w3"
proof -
  obtain t where t: "calls (snd (release_guarded e ls k m w3)) = calls w3 @ t"
    using release_guarded_grows by blast
  show ?thesis
    by (simp add: trace_def tail_trace_def assms t)
qed

text \<open>How a \<open>Snapshot\<close> starts: without a session, with a failed search, with a
  failed creation, or with a ref, reused or created, that the guarded part works on.\<close>

lemma Snapshot_cases [case_names no_session search_failed create_failed reused created]:
  obtains
    "session_FromContext c = []" "Snapshot e ls c w = (Inl NoSession, w)"
  | "session_FromContext c \<noteq> []" "fails e (Search (sharedKey_of ls))"
    "fst (Snapshot e ls c w) = Inl (Failed (Search (sharedKey_of ls)))"
    "trace e ls c w = [(Search (sharedKey_of ls), False)]"
  | "session_FromContext c \<noteq> []" "\<not> fails e (Search (sharedKey_of ls))"
    "find (acquirable e w) (search_result w (sharedKey_of ls)) = None"
    "fails e (New (description ls) (next_id w))"
    "fst (Snapshot e ls c w) = Inl (Failed (New (description ls) (next_id w)))"
    "trace e ls c w = (Search (sharedKey_of ls), True)
        # map (\<lambda>i. (GetMutable i, False)) (search_result w (sharedKey_of ls))
        @ [(New (description ls) (next_id w), False)]"
  | m w3 where "session_FromContext c \<noteq> []" "\<not> fails e (Search (sharedKey_of ls))"
    "find (acquirable e w) (search_result w (sharedKey_of ls)) = Some m"
    "items w3 = items w"
    "Snapshot e ls c w = release_guarded e ls (sharedKey_of ls) m w3"
    "trace e ls c w = (Search (sharedKey_of ls), True)
        # map (\<lambda>i. (GetMutable i, False))
            (takeWhile (Not \<circ> acquirable e w) (search_result w (sharedKey_of ls)))
        @ [(GetMutable m, True)] @ tail_trace e ls (sharedKey_of ls) m w3"
  | w3 where "session_FromContext c \<noteq> []" "\<not> fails e (Search (sharedKey_of ls))"
    "find (acquirable e w) (search_result w (sharedKey_of ls)) = None"
    "\<not> fails e (New (description ls) (next_id w))"
    "items w3 = items w"
    "Snapshot e ls c w = release_guarded e ls (sharedKey_of ls) (next_id w) w3"
    "trace e ls c w = (Search (sharedKey_of ls), True)
        # map (\<lambda>i. (GetMutable i, False)) (search_result w (sharedKey_of ls))
        @ [(New (description ls) (next_id w), True)]
        @ tail_trace e ls (sharedKey_of ls) (next_id w) w3"
proof (cases "session_FromContext c = []")
  case True
  then show ?thesis using that(1) by (simp add: Snapshot_def)
next
  case session: False
  let ?k = "sharedKey_of ls"
  show ?thesis
  proof (cases "fails e (Search ?k)")
    case True
    with session show ?thesis
      using that(2) by (simp add: Snapshot_def trace_def md_Search_def logged_def Let_def)
  next
    case search: False
    let ?w1 = "logged (Search ?k) True w"
    let ?sis = "search_result w ?k"
    obtain r w2 where loop: "reuse_loop e ?sis ?w1 = (r, w2)"
      by (cases "reuse_loop e ?sis ?w1")
    have same: "acquirable e ?w1 = acquirable e w"
      by (simp add: acquirable_def logged_def fun_eq_iff)
    have w1: "calls ?w1 = calls w @ [(Search ?k, True)]" "items ?w1 = items w"
      "next_id ?w1 = next_id w"
      by (simp_all add: logged_def)
    from reuse_loop_run [where e = e and sis = "?sis" and w = "?w1"] loop
    have r: "r = find (acquirable e w) ?sis"
      and calls2: "calls w2 = calls w @ (Search ?k, True)
          # map (\<lambda>i. (GetMutable i, False)) (takeWhile (Not \<circ> acquirable e w) ?sis)
          @ (case r of Some m \<Rightarrow> [(GetMutable m, True)] | None \<Rightarrow> [])"
      and items2: "items w2 = items w" and next2: "next_id w2 = next_id w"
      by (simp_all add: same w1)
    have snap: "Snapshot e ls c w =
        (case (case r of Some m \<Rightarrow> (Inr m, w2) | None \<Rightarrow> cm_New e (description ls) w2) of
           (Inl err, w3) \<Rightarrow> (Inl err, w3)
         | (Inr m, w3) \<Rightarrow> release_guarded e ls ?k m w3)"
      using session search loop
      by (simp add: Snapshot_def md_Search_def search_result_def Let_def)
    show ?thesis
    proof (cases r)
      case (Some m)
      have "Snapshot e ls c w = release_guarded e ls ?k m w2"
        using snap Some by simp
      moreover from this have "trace e ls c w =
          ((Search ?k, True) # map (\<lambda>i. (GetMutable i, False))
             (takeWhile (Not \<circ> acquirable e w) ?sis) @ [(GetMutable m, True)])
          @ tail_trace e ls ?k m w2"
        using calls2 Some by (intro trace_via_tail) simp_all
      ultimately show ?thesis
        using that(4) [of m w2] session search r Some items2 by simp
    next
      case None
      then have none: "find (acquirable e w) ?sis = None" using r by simp
      have calls2': "calls w2 = calls w @ (Search ?k, True) # map (\<lambda>i. (GetMutable i, False)) ?sis"
        using calls2 None find_None_takeWhile [OF none] by simp
      show ?thesis
      proof (cases "fails e (New (description ls) (next_id w))")
        case True
        then have "Snapshot e ls c w =
            (Inl (Failed (New (description ls) (next_id w))),
             logged (New (description ls) (next_id w)) False w2)"
          using snap None next2 by (simp add: cm_New_def Let_def)
        then show ?thesis
          using that(3) session search none True calls2'
          by (simp add: trace_def logged_def)
      next
        case False
        let ?w3 = "logged (New (description ls) (next_id w)) True
                     (w2\<lparr>refs := (refs w2)(next_id w \<mapsto> Held), next_id := Suc (next_id w)\<rparr>)"
        have "Snapshot e ls c w = release_guarded e ls ?k (next_id w) ?w3"
          using snap None next2 False by (simp add: cm_New_def Let_def)
        moreover from this have "trace e ls c w =
            ((Search ?k, True) # map (\<lambda>i. (GetMutable i, False)) ?sis
               @ [(New (description ls) (next_id w), True)])
            @ tail_trace e ls ?k (next_id w) ?w3"
          using calls2' by (intro trace_via_tail) (simp_all add: logged_def)
        moreover have "items ?w3 = items w"
          using items2 by (simp add: logged_def)
        ultimately show ?thesis
          using that(5) [of ?w3] session search none False by simp
      qed
    qed
  qed
qed


lemmas tail_defs = tail_trace_def release_guarded_def mount_and_copy_def copy_and_commit_def
  store_shared_key_def collab_defs logged_def Let_def

lemmas obs_defs = acquired_def committed_def released_def index_writes_def attempted_def
  created_def copied_def before_write_def

lemma skipStoreSharedKey_of_error:
  "skipStoreSharedKey_of si k = Inl err \<Longrightarrow> err = UnmarshalError"
  by (auto simp: skipStoreSharedKey_of_def Unmarshal_def split: option.splits json.splits)

text \<open>Every way through the guarded part of Snapshot: its result and its calls.\<close>

lemma release_guarded_paths
  [case_names mount local_mount get_context copy unmount set_context unmarshal set_value
     commit_written written commit_skipped skipped]:
  fixes e ls k m w
  defines "r \<equiv> fst (release_guarded e ls k m w)"
    and "t \<equiv> tail_trace e ls k m w"
    and "p \<equiv> map_index (ld ls) (Name (src ls))"
    and "d \<equiv> mount_dir e m"
    and "rel \<equiv> (Release m, \<not> fails e (Release m))"
    and "v \<equiv> \<lparr>Value = JString k, Index = k\<rparr>"
  obtains
    "fails e (Mount m)" "r = Inl (Failed (Mount m))" "t = [(Mount m, False), rel]"
  | "\<not> fails e (Mount m)" "fails e (LocalMount m)" "r = Inl (Failed (LocalMount m))"
    "t = [(Mount m, True), (LocalMount m, False), rel]"
  | "\<not> fails e (Mount m)" "\<not> fails e (LocalMount m)" "fails e (GetCacheContext m)"
    "r = Inl (Failed (GetCacheContext m))"
    "t = [(Mount m, True), (LocalMount m, True), (GetCacheContext m, False),
          (Unmount m, \<not> fails e (Unmount m)), rel]"
  | "\<not> fails e (Mount m)" "\<not> fails e (LocalMount m)" "\<not> fails e (GetCacheContext m)"
    "fails e (CopyDir p d (src ls))" "r = Inl (Failed (CopyDir p d (src ls)))"
    "t = [(Mount m, True), (LocalMount m, True), (GetCacheContext m, True),
          (CopyDir p d (src ls), False), (Unmount m, \<not> fails e (Unmount m)), rel]"
  | "\<not> fails e (Mount m)" "\<not> fails e (LocalMount m)" "\<not> fails e (GetCacheContext m)"
    "\<not> fails e (CopyDir p d (src ls))"
    "fails e (Unmount m)" "r = Inl (Failed (Unmount m))"
    "t = [(Mount m, True), (LocalMount m, True), (GetCacheContext m, True),
          (CopyDir p d (src ls), True), (Unmount m, False), (Unmount m, False), rel]"
  | "\<not> fails e (Mount m)" "\<not> fails e (LocalMount m)" "\<not> fails e (GetCacheContext m)"
    "\<not> fails e (CopyDir p d (src ls))" "\<not> fails e (Unmount m)"
    "fails e (SetCacheContext m)" "r = Inl (Failed (SetCacheContext m))"
    "t = [(Mount m, True), (LocalMount m, True), (GetCacheContext m, True),
          (CopyDir p d (src ls), True), (Unmount m, True), (SetCacheContext m, False), rel]"
  | "\<not> fails e (Mount m)" "\<not> fails e (LocalMount m)" "\<not> fails e (GetCacheContext m)"
    "\<not> fails e (CopyDir p d (src ls))" "\<not> fails e (Unmount m)"
    "\<not> fails e (SetCacheContext m)"
    "items w m keySharedKey \<noteq> None" "r = Inl UnmarshalError"
    "t = [(Mount m, True), (LocalMount m, True), (GetCacheContext m, True),
          (CopyDir p d (src ls), True), (Unmount m, True), (SetCacheContext m, True), rel]"
  | "\<not> fails e (Mount m)" "\<not> fails e (LocalMount m)" "\<not> fails e (GetCacheContext m)"
    "\<not> fails e (CopyDir p d (src ls))" "\<not> fails e (Unmount m)"
    "\<not> fails e (SetCacheContext m)"
    "skipStoreSharedKey_of (items w m) k = Inr False"
    "fails e (SetValue m k v)" "r = Inl (Failed (SetValue m k v))"
    "t = [(Mount m, True), (LocalMount m, True), (GetCacheContext m, True),
          (CopyDir p d (src ls), True), (Unmount m, True), (SetCacheContext m, True),
          (SetValue m k v, False), rel]"
  | "\<not> fails e (Mount m)" "\<not> fails e (LocalMount m)" "\<not> fails e (GetCacheContext m)"
    "\<not> fails e (CopyDir p d (src ls))" "\<not> fails e (Unmount m)"
    "\<not> fails e (SetCacheContext m)"
    "skipStoreSharedKey_of (items w m) k = Inr False" "\<not> fails e (SetValue m k v)"
    "fails e (Commit m)" "r = Inl (Failed (Commit m))"
    "t = [(Mount m, True), (LocalMount m, True), (GetCacheContext m, True),
          (CopyDir p d (src ls), True), (Unmount m, True), (SetCacheContext m, True),
          (SetValue m k v, True), (Commit m, False), rel]"
  | "\<not> fails e (Mount m)" "\<not> fails e (LocalMount m)" "\<not> fails e (GetCacheContext m)"
    "\<not> fails e (CopyDir p d (src ls))" "\<not> fails e (Unmount m)"
    "\<not> fails e (SetCacheContext m)"
    "skipStoreSharedKey_of (items w m) k = Inr False" "\<not> fails e (SetValue m k v)"
    "\<not> fails e (Commit m)" "r = Inr (ImmutableRef m)"
    "t = [(Mount m, True), (LocalMount m, True), (GetCacheContext m, True),
          (CopyDir p d (src ls), True), (Unmount m, True), (SetCacheContext m, True),
          (SetValue m k v, True), (Commit m, True)]"
  | "\<not> fails e (Mount m)" "\<not> fails e (LocalMount m)" "\<not> fails e (GetCacheContext m)"
    "\<not> fails e (CopyDir p d (src ls))" "\<not> fails e (Unmount m)"
    "\<not> fails e (SetCacheContext m)"
    "skipStoreSharedKey_of (items w m) k = Inr True"
    "fails e (Commit m)" "r = Inl (Failed (Commit m))"
    "t = [(Mount m, True), (LocalMount m, True), (GetCacheContext m, True),
          (CopyDir p d (src ls), True), (Unmount m, True), (SetCacheContext m, True),
          (Commit m, False), rel]"
  | "\<not> fails e (Mount m)" "\<not> fails e (LocalMount m)" "\<not> fails e (GetCacheContext m)"
    "\<not> fails e (CopyDir p d (src ls))" "\<not> fails e (Unmount m)"
    "\<not> fails e (SetCacheContext m)"
    "skipStoreSharedKey_of (items w m) k = Inr True"
    "\<not> fails e (Commit m)" "r = Inr (ImmutableRef m)"
    "t = [(Mount m, True), (LocalMount m, True), (GetCacheContext m, True),
          (CopyDir p d (src ls), True), (Unmount m, True), (SetCacheContext m, True),
          (Commit m, True)]"
proof -
  let ?dec = "skipStoreSharedKey_of (items w m) k"
  have dec: "?dec = Inl UnmarshalError \<and> items w m keySharedKey \<noteq> None \<or> ?dec = Inr False \<or> ?dec = Inr True"
    by (auto simp: skipStoreSharedKey_of_def Unmarshal_def split: option.splits json.splits)
  consider
      (1) "fails e (Mount m)"
    | (2) "\<not> fails e (Mount m)" "fails e (LocalMount m)"
    | (3) "\<not> fails e (Mount m)" "\<not> fails e (LocalMount m)" "fails e (GetCacheContext m)"
    | (4) "\<not> fails e (Mount m)" "\<not> fails e (LocalMount m)" "\<not> fails e (GetCacheContext m)"
          "fails e (CopyDir p d (src ls))"
    | (5) "\<not> fails e (Mount m)" "\<not> fails e (LocalMount m)" "\<not> fails e (GetCacheContext m)"
          "\<not> fails e (CopyDir p d (src ls))" "fails e (Unmount m)"
    | (6) "\<not> fails e (Mount m)" "\<not> fails e (LocalMount m)" "\<not> fails e (GetCacheContext m)"
          "\<not> fails e (CopyDir p d (src ls))" "\<not> fails e (Unmount m)" "fails e (SetCacheContext m)"
    | (7) "\<not> fails e (Mount m)" "\<not> fails e (LocalMount m)" "\<not> fails e (GetCacheContext m)"
          "\<not> fails e (CopyDir p d (src ls))" "\<not> fails e (Unmount m)" "\<not> fails e (SetCacheContext m)"
          "?dec = Inl UnmarshalError" "items w m keySharedKey \<noteq> None"
    | (8) "\<not> fails e (Mount m)" "\<not> fails e (LocalMount m)" "\<not> fails e (GetCacheContext m)"
          "\<not> fails e (CopyDir p d (src ls))" "\<not> fails e (Unmount m)" "\<not> fails e (SetCacheContext m)"
          "?dec = Inr False" "fails e (SetValue m k v)"
    | (9) "\<not> fails e (Mount m)" "\<not> fails e (LocalMount m)" "\<not> fails e (GetCacheContext m)"
          "\<not> fails e (CopyDir p d (src ls))" "\<not> fails e (Unmount m)" "\<not> fails e (SetCacheContext m)"
          "?dec = Inr False" "\<not> fails e (SetValue m k v)" "fails e (Commit m)"
    | (10) "\<not> fails e (Mount m)" "\<not> fails e (LocalMount m)" "\<not> fails e (GetCacheContext m)"
          "\<not> fails e (CopyDir p d (src ls))" "\<not> fails e (Unmount m)" "\<not> fails e (SetCacheContext m)"
          "?dec = Inr False" "\<not> fails e (SetValue m k v)" "\<not> fails e (Commit m)"
    | (11) "\<not> fails e (Mount m)" "\<not> fails e (LocalMount m)" "\<not> fails e (GetCacheContext m)"
          "\<not> fails e (CopyDir p d (src ls))" "\<not> fails e (Unmount m)" "\<not> fails e (SetCacheContext m)"
          "?dec = Inr True" "fails e (Commit m)"
    | (12) "\<not> fails e (Mount m)" "\<not> fails e (LocalMount m)" "\<not> fails e (GetCacheContext m)"
          "\<not> fails e (CopyDir p d (src ls))" "\<not> fails e (Unmount m)" "\<not> fails e (SetCacheContext m)"
          "?dec = Inr True" "\<not> fails e (Commit m)"
    using dec by blast
  then show ?thesis
  proof cases
    case 1
    then show ?thesis using that(1) by (simp add: r_def t_def rel_def tail_defs)
  next
    case 2
    then show ?thesis using that(2) by (simp add: r_def t_def rel_def tail_defs)
  next
    case 3
    then show ?thesis using that(3) by (simp add: r_def t_def rel_def tail_defs)
  next
    case 4
    then show ?thesis using that(4) by (simp add: r_def t_def rel_def p_def d_def tail_defs)
  next
    case 5
    then show ?thesis using that(5) by (simp add: r_def t_def rel_def p_def d_def tail_defs)
  next
    case 6
    then show ?thesis using that(6) by (simp add: r_def t_def rel_def p_def d_def tail_defs)
  next
    case 7
    then show ?thesis using that(7) by (simp add: r_def t_def rel_def p_def d_def tail_defs)
  next
    case 8
    then show ?thesis using that(8) by (simp add: r_def t_def rel_def p_def d_def v_def tail_defs)
  next
    case 9
    then show ?thesis using that(9) by (simp add: r_def t_def rel_def p_def d_def v_def tail_defs)
  next
    case 10
    then show ?thesis using that(10) by (simp add: r_def t_def rel_def p_def d_def v_def tail_defs)
  next
    case 11
    then show ?thesis using that(11) by (simp add: r_def t_def rel_def p_def d_def v_def tail_defs)
  next
    case 12
    then show ?thesis using that(12) by (simp add: r_def t_def rel_def p_def d_def v_def tail_defs)
  qed
qed


lemma tail_ownership:
  "acquired (tail_trace e ls k m w) = [] \<and>
   (case fst (release_guarded e ls k m w) of
      Inr snap \<Rightarrow> snap = ImmutableRef m \<and> committed (tail_trace e ls k m w) = [m]
                    \<and> released (tail_trace e ls k m w) = []
    | Inl err \<Rightarrow> committed (tail_trace e ls k m w) = [] \<and> released (tail_trace e ls k m w) = [m])"
  by (cases rule: release_guarded_paths [of e m ls k w]) (simp_all add: obs_defs)

lemma tail_commit_error:
  "fst (release_guarded e ls k m w) = Inl (Failed (Commit i)) \<Longrightarrow> i = m"
  by (cases rule: release_guarded_paths [of e m ls k w]) simp_all

lemma tail_unmounts:
  "(LocalMount i, True) \<in> set (tail_trace e ls k m w) \<longrightarrow>
     (Unmount i, \<not> fails e (Unmount i)) \<in> set (tail_trace e ls k m w)"
  by (cases rule: release_guarded_paths [of e m ls k w]) auto

lemma tail_index_writes:
  "index_writes (tail_trace e ls k m w) = [] \<or>
   index_writes (tail_trace e ls k m w) = [(m, k, \<lparr>Value = JString k, Index = k\<rparr>)] \<and>
   (fst (release_guarded e ls k m w) = Inr (ImmutableRef m) \<or>
    fst (release_guarded e ls k m w) = Inl (Failed (Commit m))) \<and>
   (CopyDir (map_index (ld ls) (Name (src ls))) (mount_dir e m) (src ls), True)
      \<in> set (before_write (tail_trace e ls k m w)) \<and>
   (Unmount m, True) \<in> set (before_write (tail_trace e ls k m w)) \<and>
   (SetCacheContext m, True) \<in> set (before_write (tail_trace e ls k m w))"
  by (cases rule: release_guarded_paths [of e m ls k w]) (simp_all add: obs_defs)

lemma tail_no_acquisition:
  "attempted (tail_trace e ls k m w) = [] \<and> created (tail_trace e ls k m w) = [] \<and>
   fst (release_guarded e ls k m w) \<noteq> Inl (Failed (GetMutable i)) \<and>
   (fst (release_guarded e ls k m w) = Inr snap \<longrightarrow> snap = ImmutableRef m)"
  by (cases rule: release_guarded_paths [of e m ls k w]) (simp_all add: obs_defs)

lemma tail_copies:
  "(copied (tail_trace e ls k m w) = [] \<and>
      (fails e (Mount m) \<or> fails e (LocalMount m) \<or> fails e (GetCacheContext m))) \<or>
   copied (tail_trace e ls k m w) = [(map_index (ld ls) (Name (src ls)), mount_dir e m, src ls)]"
  by (cases rule: release_guarded_paths [of e m ls k w]) (simp_all add: obs_defs)

lemma tail_must_write:
  "items w m keySharedKey = None \<Longrightarrow> fst (release_guarded e ls k m w) = Inr snap \<Longrightarrow>
     index_writes (tail_trace e ls k m w) = [(m, k, \<lparr>Value = JString k, Index = k\<rparr>)]"
  by (cases rule: release_guarded_paths [of e m ls k w])
     (simp_all add: obs_defs skipStoreSharedKey_of_def)

lemma obs_failed_attempts [simp]:
  "concat (map (acquires \<circ> (\<lambda>i. (GetMutable i, False))) xs) = []"
  "concat (map (commits \<circ> (\<lambda>i. (GetMutable i, False))) xs) = []"
  "concat (map (releases \<circ> (\<lambda>i. (GetMutable i, False))) xs) = []"
  "concat (map (index_write \<circ> (\<lambda>i. (GetMutable i, False))) xs) = []"
  "concat (map (creates \<circ> (\<lambda>i. (GetMutable i, False))) xs) = []"
  "concat (map (copies \<circ> (\<lambda>i. (GetMutable i, False))) xs) = []"
  "concat (map (attempts \<circ> (\<lambda>i. (GetMutable i, False))) xs) = xs"
  by (induction xs) simp_all

lemma tail_copy_error:
  "fst (release_guarded e ls k m w) = Inl (Failed (CopyDir p d s)) \<Longrightarrow>
     (Unmount m, \<not> fails e (Unmount m)) \<in> set (tail_trace e ls k m w)"
  by (cases rule: release_guarded_paths [of e m ls k w]) simp_all

lemma before_write_prefix:
  "\<forall>x\<in>set pre. index_write x = [] \<Longrightarrow> before_write (pre @ t) = pre @ before_write t"
  by (simp add: before_write_def takeWhile_append2)

lemma tail_succeeds:
  "\<forall>c. \<not> fails e c \<Longrightarrow> items w m keySharedKey = None \<Longrightarrow>
     fst (release_guarded e ls k m w) = Inr (ImmutableRef m)"
  by (cases rule: release_guarded_paths [of e m ls k w]) (simp_all add: skipStoreSharedKey_of_def)

lemmas run_defs = Snapshot_def release_guarded_def mount_and_copy_def copy_and_commit_def
  store_shared_key_def skipStoreSharedKey_of_def collab_defs logged_def Let_def sharedKey_of_def
  keySharedKey_def map_index_def description_def immutable_Release_def

lemma after_first_fields:
  "md_index after_first = [(''local.sharedKey:work:v1:/tmp/src'', 0)]"
  "refs after_first 0 = Some Free"
  "items after_first 0 ''local.sharedKey:work:v1:/tmp/src'' =
     Some \<lparr>Value = JString ''local.sharedKey:work:v1:/tmp/src'',
           Index = ''local.sharedKey:work:v1:/tmp/src''\<rparr>"
  "items after_first i keySharedKey = None"
  by (simp_all add: after_first_def run_defs no_faults_def work_v1_def empty_world_def)

subsection \<open>Ownership of the mutable ref\<close>

text \<open>
  C7. A \<open>Snapshot\<close> acquires at most one mutable ref. When it succeeds, the ref
  it acquired is the one behind the immutable ref it returns, it has been committed, and
  no release was called. When it fails, nothing has been committed and a release was
  called for exactly the ref it acquired, if any; in particular a failed commit
  is followed by the release of the ref.
\<close>

theorem held_ref_committed_or_released:
  "length (acquired (trace e ls c w)) \<le> 1 \<and>
   (case fst (Snapshot e ls c w) of
      Inr snap \<Rightarrow> map ImmutableRef (acquired (trace e ls c w)) = [snap] \<and>
                   committed (trace e ls c w) = acquired (trace e ls c w) \<and>
                   released (trace e ls c w) = []
    | Inl err \<Rightarrow> committed (trace e ls c w) = [] \<and>
                  released (trace e ls c w) = acquired (trace e ls c w) \<and>
                  (\<forall>m. err = Failed (Commit m) \<longrightarrow> released (trace e ls c w) = [m]))"
proof (cases rule: Snapshot_cases [of c e ls w])
  case no_session
  then show ?thesis by (simp add: trace_def obs_defs)
next
  case search_failed
  then show ?thesis by (simp add: obs_defs)
next
  case create_failed
  then show ?thesis by (simp add: obs_defs)
next
  case (reused m w3)
  then show ?thesis
    using tail_ownership [of e ls "sharedKey_of ls" m w3]
      tail_commit_error [of e ls "sharedKey_of ls" m w3]
    by (auto simp: obs_defs split: sum.splits)
next
  case (created w3)
  then show ?thesis
    using tail_ownership [of e ls "sharedKey_of ls" "next_id w" w3]
      tail_commit_error [of e ls "sharedKey_of ls" "next_id w" w3]
    by (auto simp: obs_defs split: sum.splits)
qed

text \<open>
  At the input where the commit fails: the ref (0) was acquired, nothing is committed,
  and the release is called for it.
\<close>

theorem commit_failure_releases_ref:
  "fst (Snapshot commit_fails work_v1 (Ctx ''s1'') empty_world) = Inl (Failed (Commit 0)) \<and>
   released (trace commit_fails work_v1 (Ctx ''s1'') empty_world) = [0] \<and>
   acquired (trace commit_fails work_v1 (Ctx ''s1'') empty_world) = [0] \<and>
   committed (trace commit_fails work_v1 (Ctx ''s1'') empty_world) = []"
proof -
  have r: "fst (Snapshot commit_fails work_v1 (Ctx ''s1'') empty_world) = Inl (Failed (Commit 0))"
    by code_simp
  show ?thesis
    using held_ref_committed_or_released [of commit_fails work_v1 "Ctx ''s1''" empty_world]
    by (auto simp: r)
qed

subsection \<open>Cleaning up after a failure; the index is written last\<close>

text \<open>
  C6, as amended. When \<open>Snapshot\<close> fails, a release has been called for the ref it
  acquired, if any, and unless the failing step is the commit no index value has been
  written; when the copy fails, the ref is released and the unmount is called. In every
  run, a local mount that was made is followed by a call of the unmount (which undoes the
  mount unless the unmount itself fails). And an index value is written only after the
  copy, the unmount and the saving of the content-hash context have succeeded.
\<close>

theorem failure_cleans_up_and_index_written_last:
  "(isl (fst (Snapshot e ls c w)) \<longrightarrow>
      released (trace e ls c w) = acquired (trace e ls c w) \<and>
      ((\<forall>i. fst (Snapshot e ls c w) \<noteq> Inl (Failed (Commit i))) \<longrightarrow>
         index_writes (trace e ls c w) = [])) \<and>
   (\<forall>p d s. fst (Snapshot e ls c w) = Inl (Failed (CopyDir p d s)) \<longrightarrow>
      (\<exists>m. released (trace e ls c w) = [m] \<and>
           (Unmount m, \<not> fails e (Unmount m)) \<in> set (trace e ls c w))) \<and>
   (\<forall>i. (LocalMount i, True) \<in> set (trace e ls c w) \<longrightarrow>
      (Unmount i, \<not> fails e (Unmount i)) \<in> set (trace e ls c w)) \<and>
   (index_writes (trace e ls c w) \<noteq> [] \<longrightarrow>
      (\<exists>m. acquired (trace e ls c w) = [m] \<and>
           (CopyDir (map_index (ld ls) (Name (src ls))) (mount_dir e m) (src ls), True)
              \<in> set (before_write (trace e ls c w)) \<and>
           (Unmount m, True) \<in> set (before_write (trace e ls c w)) \<and>
           (SetCacheContext m, True) \<in> set (before_write (trace e ls c w))))"
proof (cases rule: Snapshot_cases [of c e ls w])
  case no_session
  then show ?thesis by (simp add: trace_def obs_defs)
next
  case search_failed
  then show ?thesis by (simp add: obs_defs)
next
  case create_failed
  then show ?thesis by (auto simp: obs_defs)
next
  case (reused m w3)
  let ?pre = "(Search (sharedKey_of ls), True)
        # map (\<lambda>i. (GetMutable i, False))
            (takeWhile (Not \<circ> acquirable e w) (search_result w (sharedKey_of ls)))
        @ [(GetMutable m, True)]"
  have pre: "\<forall>x\<in>set ?pre. index_write x = []" by auto
  have tr: "trace e ls c w = ?pre @ tail_trace e ls (sharedKey_of ls) m w3"
    using reused by simp
  show ?thesis
    unfolding tr before_write_prefix [OF pre] reused(5)
    using tail_ownership [of e ls "sharedKey_of ls" m w3]
      tail_unmounts [of _ e ls "sharedKey_of ls" m w3]
      tail_index_writes [of e ls "sharedKey_of ls" m w3]
      tail_copy_error [of e ls "sharedKey_of ls" m w3]
    by (auto simp: obs_defs split: sum.splits)
next
  case (created w3)
  let ?pre = "(Search (sharedKey_of ls), True)
        # map (\<lambda>i. (GetMutable i, False)) (search_result w (sharedKey_of ls))
        @ [(New (description ls) (next_id w), True)]"
  have pre: "\<forall>x\<in>set ?pre. index_write x = []" by auto
  have tr: "trace e ls c w = ?pre @ tail_trace e ls (sharedKey_of ls) (next_id w) w3"
    using created by simp
  show ?thesis
    unfolding tr before_write_prefix [OF pre] created(6)
    using tail_ownership [of e ls "sharedKey_of ls" "next_id w" w3]
      tail_unmounts [of _ e ls "sharedKey_of ls" "next_id w" w3]
      tail_index_writes [of e ls "sharedKey_of ls" "next_id w" w3]
      tail_copy_error [of e ls "sharedKey_of ls" "next_id w" w3]
    by (auto simp: obs_defs split: sum.splits)
qed

text \<open>At the input where the copy fails: the ref is released, the mount is unmounted,
  and no index value is written.\<close>

theorem copy_failure_example:
  "fst (Snapshot copy_fails work_v1 (Ctx ''s1'') empty_world)
     = Inl (Failed (CopyDir ''/tmp/src'' ''/mnt'' (src work_v1))) \<and>
   released (trace copy_fails work_v1 (Ctx ''s1'') empty_world)
     = acquired (trace copy_fails work_v1 (Ctx ''s1'') empty_world) \<and>
   (Unmount 0, True) \<in> set (trace copy_fails work_v1 (Ctx ''s1'') empty_world) \<and>
   index_writes (trace copy_fails work_v1 (Ctx ''s1'') empty_world) = []"
proof -
  have r: "fst (Snapshot copy_fails work_v1 (Ctx ''s1'') empty_world)
      = Inl (Failed (CopyDir ''/tmp/src'' ''/mnt'' (src work_v1)))"
    by code_simp
  have m: "(LocalMount 0, True) \<in> set (trace copy_fails work_v1 (Ctx ''s1'') empty_world)"
    by code_simp
  have u: "\<not> fails copy_fails (Unmount 0)"
    by (simp add: copy_fails_def)
  show ?thesis
    using failure_cleans_up_and_index_written_last [of copy_fails work_v1 "Ctx ''s1''" empty_world] m u
    by (auto simp: r)
qed

text \<open>
  C6 as stated fails at one step: when the commit fails, \<open>Snapshot\<close> fails with the ref
  held, and the index value has been written before and stays in the index.
\<close>

theorem commit_failure_leaves_index_entry:
  "fst (Snapshot commit_fails work_v1 (Ctx ''s1'') empty_world) = Inl (Failed (Commit 0)) \<and>
   index_writes (trace commit_fails work_v1 (Ctx ''s1'') empty_world)
     = [(0, ''local.sharedKey:work:v1:/tmp/src'',
         \<lparr>Value = JString ''local.sharedKey:work:v1:/tmp/src'',
          Index = ''local.sharedKey:work:v1:/tmp/src''\<rparr>)] \<and>
   md_index (snd (Snapshot commit_fails work_v1 (Ctx ''s1'') empty_world))
     = [(''local.sharedKey:work:v1:/tmp/src'', 0)]"
  by code_simp

subsection \<open>Reusing a ref found by the shared key\<close>

text \<open>
  C5. When there is a session and the search succeeds, \<open>Snapshot\<close> attempts to acquire
  the refs of the search result in the index's order, up to and including the first one
  that can be acquired; it attempts to create a ref exactly when none can be acquired;
  it never fails with the error of a failed acquisition; and the immutable ref it
  returns is that of the first ref that could be acquired, or else of the new ref.
\<close>

theorem Snapshot_reuses_first_acquirable:
  assumes "session_FromContext c \<noteq> []" and "\<not> fails e (Search (sharedKey_of ls))"
  shows "attempted (trace e ls c w) =
           takeWhile (Not \<circ> acquirable e w) (search_result w (sharedKey_of ls)) @
           (case find (acquirable e w) (search_result w (sharedKey_of ls)) of
              Some m \<Rightarrow> [m] | None \<Rightarrow> []) \<and>
         created (trace e ls c w) =
           (case find (acquirable e w) (search_result w (sharedKey_of ls)) of
              Some m \<Rightarrow> [] | None \<Rightarrow> [(description ls, next_id w)]) \<and>
         (\<forall>i. fst (Snapshot e ls c w) \<noteq> Inl (Failed (GetMutable i))) \<and>
         (\<forall>snap. fst (Snapshot e ls c w) = Inr snap \<longrightarrow>
            snap = ImmutableRef
              (case find (acquirable e w) (search_result w (sharedKey_of ls)) of
                 Some m \<Rightarrow> m | None \<Rightarrow> next_id w))"
proof (cases rule: Snapshot_cases [of c e ls w])
  case no_session
  with assms show ?thesis by simp
next
  case search_failed
  with assms show ?thesis by simp
next
  case create_failed
  then show ?thesis by (simp add: obs_defs find_None_takeWhile)
next
  case (reused m w3)
  then show ?thesis
    using tail_no_acquisition [of e ls "sharedKey_of ls" m w3]
    by (simp add: obs_defs)
next
  case (created w3)
  then show ?thesis
    using tail_no_acquisition [of e ls "sharedKey_of ls" "next_id w" w3]
    by (simp add: obs_defs find_None_takeWhile)
qed

text \<open>With a stale entry (ref 5) before a live one (ref 7), both are attempted and
  nothing is created; with the stale entry alone, a ref is created.\<close>

theorem Snapshot_reuse_examples:
  "attempted (trace no_faults work_v1 (Ctx ''s1'') stale_and_live) = [5, 7] \<and>
   created (trace no_faults work_v1 (Ctx ''s1'') stale_and_live) = [] \<and>
   attempted (trace no_faults work_v1 (Ctx ''s1'') stale_only) = [5] \<and>
   created (trace no_faults work_v1 (Ctx ''s1'') stale_only) = [(''local source for work'', 8)]"
proof -
  have k: "sharedKey_of work_v1 = ''local.sharedKey:work:v1:/tmp/src''"
    by (simp add: sharedKey_of_def keySharedKey_def map_index_def work_v1_def)
  have s: "session_FromContext (Ctx ''s1'') \<noteq> []" "\<not> fails no_faults (Search (sharedKey_of work_v1))"
    by (simp_all add: no_faults_def)
  have a: "search_result stale_and_live ''local.sharedKey:work:v1:/tmp/src'' = [5, 7]"
    "\<not> acquirable no_faults stale_and_live 5" "acquirable no_faults stale_and_live 7"
    by (simp_all add: search_result_def acquirable_def stale_and_live_def empty_world_def no_faults_def)
  have b: "search_result stale_only ''local.sharedKey:work:v1:/tmp/src'' = [5]"
    "\<not> acquirable no_faults stale_only 5" "next_id stale_only = 8"
    by (simp_all add: search_result_def acquirable_def stale_only_def empty_world_def no_faults_def)
  have d: "description work_v1 = ''local source for work''"
    by (simp add: description_def work_v1_def)
  show ?thesis
    using Snapshot_reuses_first_acquirable [OF s, of stale_and_live] Snapshot_reuses_first_acquirable [OF s, of stale_only]
    by (simp add: k a b d)
qed

subsection \<open>The value stored in the index\<close>

text \<open>
  C4, as amended. The only index value a \<open>Snapshot\<close> writes is the shared key: the
  constant \<open>local.sharedKey\<close>, the name, the hint and the host path configured for the
  name, separated by colons; it is both the key written and the index of the value.
\<close>

theorem stored_index_value_has_key_prefix:
  "map snd (index_writes (trace e ls c w)) = [] \<or>
   map snd (index_writes (trace e ls c w)) =
     [(''local.sharedKey:'' @ Name (src ls) @ '':'' @ SharedKeyHint (src ls) @ '':'' @
         map_index (ld ls) (Name (src ls)),
       \<lparr>Value = JString (''local.sharedKey:'' @ Name (src ls) @ '':'' @ SharedKeyHint (src ls) @ '':'' @
         map_index (ld ls) (Name (src ls))),
        Index = ''local.sharedKey:'' @ Name (src ls) @ '':'' @ SharedKeyHint (src ls) @ '':'' @
         map_index (ld ls) (Name (src ls))\<rparr>)]"
proof -
  have k: "sharedKey_of ls = ''local.sharedKey:'' @ Name (src ls) @ '':'' @ SharedKeyHint (src ls) @ '':'' @
         map_index (ld ls) (Name (src ls))"
    by (simp add: sharedKey_of_def keySharedKey_def)
  show ?thesis
  proof (cases rule: Snapshot_cases [of c e ls w])
    case no_session
    then show ?thesis by (simp add: trace_def obs_defs)
  next
    case search_failed
    then show ?thesis by (simp add: obs_defs)
  next
    case create_failed
    then show ?thesis by (simp add: obs_defs)
  next
    case (reused m w3)
    then show ?thesis
      using tail_index_writes [of e ls "sharedKey_of ls" m w3]
      unfolding k by (auto simp: obs_defs)
  next
    case (created w3)
    then show ?thesis
      using tail_index_writes [of e ls "sharedKey_of ls" "next_id w" w3]
      unfolding k by (auto simp: obs_defs)
  qed
qed

text \<open>For name \<open>work\<close>, hint \<open>v1\<close> and host path \<open>/tmp/src\<close> the value written is
  \<open>local.sharedKey:work:v1:/tmp/src\<close>.\<close>

theorem stored_index_value_example:
  "map snd (index_writes (trace no_faults work_v1 (Ctx ''s1'') empty_world)) =
     [(''local.sharedKey:work:v1:/tmp/src'',
       \<lparr>Value = JString ''local.sharedKey:work:v1:/tmp/src'',
        Index = ''local.sharedKey:work:v1:/tmp/src''\<rparr>)]"
proof -
  have n: "map snd (index_writes (trace no_faults work_v1 (Ctx ''s1'') empty_world)) \<noteq> []"
    by code_simp
  show ?thesis
    using stored_index_value_has_key_prefix [of no_faults work_v1 "Ctx ''s1''" empty_world] n
    by (simp add: work_v1_def map_index_def)
qed

text \<open>C4 as stated fails: after that \<open>Snapshot\<close> the index holds the value with the
  prefix, and does not hold \<open>work:v1:/tmp/src\<close>.\<close>

theorem stored_index_value_not_bare:
  "map fst (md_index (snd (Snapshot no_faults work_v1 (Ctx ''s1'') empty_world)))
     = [''local.sharedKey:work:v1:/tmp/src''] \<and>
   ''work:v1:/tmp/src'' \<notin> set (map fst (md_index (snd (Snapshot no_faults work_v1 (Ctx ''s1'') empty_world))))"
  by code_simp

subsection \<open>A name that is not configured\<close>

text \<open>
  C10. For a name that the map of host paths does not hold, \<open>Snapshot\<close> with a session
  begins with the search for the shared key that ends in an empty host path; whenever it
  invokes the copy, the source path is the empty string; when no collaborator fails it
  does invoke the copy, and, the ref's record holding nothing under \<open>local.sharedKey\<close>,
  it returns an immutable ref rather than an error.
\<close>

theorem unknown_name_is_not_validated:
  assumes "ld ls (Name (src ls)) = None" and "session_FromContext c \<noteq> []"
  shows "take 1 (trace e ls c w) =
           [(Search (''local.sharedKey:'' @ Name (src ls) @ '':'' @ SharedKeyHint (src ls) @ '':''),
             \<not> fails e (Search (''local.sharedKey:'' @ Name (src ls) @ '':'' @ SharedKeyHint (src ls) @ '':'')))] \<and>
         (map fst (copied (trace e ls c w)) = [] \<or> map fst (copied (trace e ls c w)) = [[]]) \<and>
         ((\<forall>x. \<not> fails e x) \<longrightarrow> map fst (copied (trace e ls c w)) = [[]]) \<and>
         ((\<forall>x. \<not> fails e x) \<and> (\<forall>i. items w i keySharedKey = None) \<longrightarrow>
            isl (fst (Snapshot e ls c w)) = False)"
proof -
  have k: "sharedKey_of ls = ''local.sharedKey:'' @ Name (src ls) @ '':'' @ SharedKeyHint (src ls) @ '':''"
    using assms(1) by (simp add: sharedKey_of_def keySharedKey_def map_index_def)
  have p: "map_index (ld ls) (Name (src ls)) = []"
    using assms(1) by (simp add: map_index_def)
  show ?thesis
  proof (cases rule: Snapshot_cases [of c e ls w])
    case no_session
    with assms show ?thesis by simp
  next
    case search_failed
    then show ?thesis unfolding k by (auto simp: obs_defs)
  next
    case create_failed
    then show ?thesis unfolding k by (auto simp: obs_defs)
  next
    case (reused m w3)
    then show ?thesis
      using tail_copies [of e ls "sharedKey_of ls" m w3]
        tail_succeeds [of e w3 m ls "sharedKey_of ls"]
      unfolding k p by (auto simp: obs_defs)
  next
    case (created w3)
    then show ?thesis
      using tail_copies [of e ls "sharedKey_of ls" "next_id w" w3]
        tail_succeeds [of e w3 "next_id w" ls "sharedKey_of ls"]
      unfolding k p by (auto simp: obs_defs)
  qed
qed

text \<open>For the name \<open>nowhere\<close>, on the empty store.\<close>

theorem unknown_name_example:
  "take 1 (trace no_faults nowhere_v1 (Ctx ''s1'') empty_world) =
     [(Search ''local.sharedKey:nowhere:v1:'', True)] \<and>
   map fst (copied (trace no_faults nowhere_v1 (Ctx ''s1'') empty_world)) = [[]] \<and>
   isl (fst (Snapshot no_faults nowhere_v1 (Ctx ''s1'') empty_world)) = False"
proof -
  have h: "ld nowhere_v1 (Name (src nowhere_v1)) = None" "session_FromContext (Ctx ''s1'') \<noteq> []"
    by (simp_all add: nowhere_v1_def)
  have f: "\<forall>x. \<not> fails no_faults x" "\<forall>i. items empty_world i keySharedKey = None"
    by (simp_all add: no_faults_def empty_world_def)
  show ?thesis
    using unknown_name_is_not_validated [OF h, of no_faults empty_world] f
    by (simp add: nowhere_v1_def)
qed

subsection \<open>What the cache key depends on\<close>

lemma CacheKey_resolved:
  "CacheKey ls c =
     (if resolved_session ls c = [] then Inl NoSession
      else Inr (''session:'' @ Name (src ls) @ '':'' @
                digest_FromBytes (key_object (resolved_session ls c)
                  (IncludePatterns (src ls)) (ExcludePatterns (src ls)))))"
  by (simp add: CacheKey_def resolved_session_def key_object_def json_Marshal_def Let_def)

text \<open>
  C9. Two handlers that agree on the resolved session id, the name and the two pattern
  lists have the same cache key, whatever their hints and host paths; the store is
  not an argument of \<open>CacheKey\<close> at all.
\<close>

theorem CacheKey_depends_only_on_tuple:
  assumes "resolved_session a ca = resolved_session b cb"
    and "Name (src a) = Name (src b)"
    and "IncludePatterns (src a) = IncludePatterns (src b)"
    and "ExcludePatterns (src a) = ExcludePatterns (src b)"
  shows "CacheKey a ca = CacheKey b cb"
  by (simp add: CacheKey_resolved assms)

text \<open>Two handlers that differ in the hint, in the host path and in where the session id
  comes from.\<close>

theorem CacheKey_ignores_hint_and_host_path:
  "CacheKey \<lparr>src = \<lparr>Name = ''work'', SessionID = ''s1'', IncludePatterns = Some [''*.go''],
                     ExcludePatterns = None, SharedKeyHint = ''v1''\<rparr>,
             ld = [''work'' \<mapsto> ''/tmp/src'']\<rparr> (Ctx [])
   = CacheKey \<lparr>src = \<lparr>Name = ''work'', SessionID = [], IncludePatterns = Some [''*.go''],
                     ExcludePatterns = None, SharedKeyHint = ''v2''\<rparr>,
             ld = [''work'' \<mapsto> ''/home/other'']\<rparr> (Ctx ''s1'')"
  by (rule CacheKey_depends_only_on_tuple) (simp_all add: resolved_session_def)

subsection \<open>Snapshot twice\<close>

text \<open>
  C1, at the input where it fails. The first \<open>Snapshot\<close> of \<open>work_v1\<close> on the empty
  store writes the index value on ref 0. After the caller has released the immutable
  ref, the record of ref 0 holds the shared key; the second \<open>Snapshot\<close> attempts and
  acquires ref 0 again, and writes the same index value a second time: the check reads
  the record under the key \<open>local.sharedKey\<close>, while the value is stored under the
  shared key itself.
\<close>

theorem second_snapshot_writes_index_again:
  "index_writes (trace no_faults work_v1 (Ctx ''s1'') empty_world)
     = [(0, ''local.sharedKey:work:v1:/tmp/src'',
         \<lparr>Value = JString ''local.sharedKey:work:v1:/tmp/src'',
          Index = ''local.sharedKey:work:v1:/tmp/src''\<rparr>)] \<and>
   items after_first 0 ''local.sharedKey:work:v1:/tmp/src''
     = Some \<lparr>Value = JString ''local.sharedKey:work:v1:/tmp/src'',
             Index = ''local.sharedKey:work:v1:/tmp/src''\<rparr> \<and>
   acquired (trace no_faults work_v1 (Ctx ''s1'') after_first) = [0] \<and>
   attempted (trace no_faults work_v1 (Ctx ''s1'') after_first) = [0] \<and>
   index_writes (trace no_faults work_v1 (Ctx ''s1'') after_first)
     = [(0, ''local.sharedKey:work:v1:/tmp/src'',
         \<lparr>Value = JString ''local.sharedKey:work:v1:/tmp/src'',
          Index = ''local.sharedKey:work:v1:/tmp/src''\<rparr>)]"
proof -
  let ?c = "Ctx ''s1''"
  have first: "index_writes (trace no_faults work_v1 ?c empty_world)
     = [(0, ''local.sharedKey:work:v1:/tmp/src'',
         \<lparr>Value = JString ''local.sharedKey:work:v1:/tmp/src'',
          Index = ''local.sharedKey:work:v1:/tmp/src''\<rparr>)]"
    by code_simp
  have k: "sharedKey_of work_v1 = ''local.sharedKey:work:v1:/tmp/src''"
    by (simp add: sharedKey_of_def keySharedKey_def map_index_def work_v1_def)
  have nf: "\<forall>x. \<not> fails no_faults x"
    by (simp add: no_faults_def)
  have found: "find (acquirable no_faults after_first) (search_result after_first (sharedKey_of work_v1)) = Some 0"
    by (simp add: k search_result_def acquirable_def after_first_fields nf)
  have second: "acquired (trace no_faults work_v1 ?c after_first) = [0] \<and>
      attempted (trace no_faults work_v1 ?c after_first) = [0] \<and>
      index_writes (trace no_faults work_v1 ?c after_first)
        = [(0, ''local.sharedKey:work:v1:/tmp/src'',
            \<lparr>Value = JString ''local.sharedKey:work:v1:/tmp/src'',
             Index = ''local.sharedKey:work:v1:/tmp/src''\<rparr>)]"
  proof (cases rule: Snapshot_cases [of ?c no_faults work_v1 after_first])
    case no_session
    then show ?thesis by simp
  next
    case search_failed
    then show ?thesis using nf by simp
  next
    case create_failed
    then show ?thesis using found by simp
  next
    case (reused m w3)
    then have m: "m = 0" using found by simp
    have "items w3 0 keySharedKey = None"
      using reused(4) after_first_fields(4) by simp
    then have ok: "fst (release_guarded no_faults work_v1 (sharedKey_of work_v1) 0 w3) = Inr (ImmutableRef 0)"
      using nf by (rule tail_succeeds [rotated])
    show ?thesis
      using reused(6) tail_ownership [of no_faults work_v1 "sharedKey_of work_v1" 0 w3]
        tail_no_acquisition [of no_faults work_v1 "sharedKey_of work_v1" 0 w3]
        tail_must_write [OF \<open>items w3 0 keySharedKey = None\<close> ok]
      unfolding m k
      by (simp add: obs_defs search_result_def after_first_fields acquirable_def nf)
  next
    case (created w3)
    then show ?thesis using found by simp
  qed
  show ?thesis
    using first second after_first_fields(3) by simp
qed

subsection \<open>The cache key tells tuples apart\<close>

declare utf8_ValidString.simps [simp del]

lemma unquote_plain:
  "c \<noteq> CHR 0x22 \<Longrightarrow> c \<noteq> CHR 0x5C \<Longrightarrow> unquote (c # X) = map_option (apfst ((#) c)) (unquote X)"
  by simp

lemma unquote_plains:
  "\<forall>c\<in>set p. c \<noteq> CHR 0x22 \<and> c \<noteq> CHR 0x5C \<Longrightarrow>
     unquote (p @ X) = map_option (apfst ((@) p)) (unquote X)"
proof (induction p)
  case Nil
  show ?case by (cases "unquote X") (auto simp: apfst_def map_prod_def)
next
  case (Cons c p)
  then show ?case by (cases "unquote X") (auto simp: apfst_def map_prod_def)
qed

lemma unhex_hex_all: "\<forall>i\<in>set [0..<16]. unhex (hex ! i) = Some i"
  by code_simp

lemma unhex_hex: "i < 16 \<Longrightarrow> unhex (hex ! i) = Some i"
  using unhex_hex_all by simp

lemma Decode_multi:
  assumes "DecodeRuneInString s = (c, n)" and "s \<noteq> []" and "\<not> (c = RuneError \<and> n = 1)"
    and "\<not> (of_char (hd s) :: nat) < 0x80"
  shows "2 \<le> n \<and> n \<le> 4 \<and> n \<le> length s \<and> (\<forall>x\<in>set (take n s). (0x80::nat) \<le> of_char x)"
proof -
  obtain c0 t where s: "s = c0 # t" using assms(2) by (cases s) auto
  show ?thesis
  proof (cases t)
    case Nil
    with assms s show ?thesis
      by (auto simp: DecodeRuneInString_def Let_def split: if_splits)
  next
    case t1: (Cons c1 ta)
    show ?thesis
    proof (cases ta)
      case Nil
      with assms s t1 show ?thesis
        by (auto simp: DecodeRuneInString_def Let_def split: if_splits)
    next
      case t2: (Cons c2 tb)
      show ?thesis
      proof (cases tb)
        case Nil
        with assms s t1 t2 show ?thesis
          by (auto simp: DecodeRuneInString_def Let_def split: if_splits)
      next
        case t3: (Cons c3 tc)
        with assms s t1 t2 show ?thesis
          by (auto simp: DecodeRuneInString_def Let_def split: if_splits)
      qed
    qed
  qed
qed

lemma digits3:
  fixes a b c d :: nat
  assumes "b < 64" "c < 64" "a * 4096 + b * 64 + c = 8232 + d" "d < 2"
  shows "a = 2 \<and> b = 0 \<and> c = 40 + d"
proof -
  have "(a * 4096 + (b * 64 + c)) div 4096 = a"
    using assms(1,2) by simp
  moreover have "(8232 + d) div 4096 = 2"
    using assms(4) by simp
  ultimately have a: "a = 2"
    using assms(3) by (simp add: add.assoc)
  then have bc: "b * 64 + c = 40 + d"
    using assms(3) by simp
  have "(b * 64 + c) div 64 = b"
    using assms(2) by simp
  moreover have "(40 + d) div 64 = 0"
    using assms(4) by simp
  ultimately have b: "b = 0"
    using bc by simp
  show ?thesis
    using a b bc by simp
qed

lemma low_bits:
  fixes s k m :: nat
  assumes "k * m \<le> s" "s < k * m + m"
  shows "s mod m = s - k * m"
proof -
  have "s = k * m + (s - k * m)" using assms(1) by simp
  moreover have "s - k * m < m" using assms by linarith
  ultimately show ?thesis
    by (metis mod_less mod_mult_self3)
qed

lemma append_one: "(@) [b] = (#) b"
  by (rule ext) simp

lemma unquote_escape:
  assumes "(of_char b :: nat) < 0x80" and "\<not> htmlSafeSet b"
  shows "unquote (escape_byte b @ X) = map_option (apfst ((#) b)) (unquote X)"
proof -
  have d: "(of_char b :: nat) div 16 < 16" "(of_char b :: nat) mod 16 < 16"
    using assms(1) by simp_all
  have again: "char_of (16 * ((of_char b :: nat) div 16) + of_char b mod 16) = b"
    by simp
  show ?thesis
    using again by (simp add: escape_byte_def unescape_def unescape_u_def unhex_hex [OF d(1)] unhex_hex [OF d(2)] append_one)
qed

lemma Decode_2028:
  assumes dec: "DecodeRuneInString s = (c, n)" and c: "c = 0x2028 + d" "d < 2"
    and hi: "\<not> (of_char (hd s) :: nat) < 0x80" and ne: "s \<noteq> []"
  shows "n = 3 \<and> take 3 s = [CHR 0xE2, CHR 0x80, char_of (0xA8 + d)]"
proof -
  obtain c0 t where s: "s = c0 # t" using ne by (cases s) auto
  define s0 :: nat where "s0 = of_char c0"
  have valid: "\<not> (c = RuneError \<and> n = 1)"
    using c by (simp add: RuneError_def)
  from Decode_multi [OF dec ne valid hi] have len: "2 \<le> n" "n \<le> length s"
    by simp_all
  have hi0: "\<not> s0 < 0x80" using hi s by (simp add: s0_def)
  consider (two) "s0 < 0xE0" | (three) "0xE0 \<le> s0" "s0 < 0xF0" | (four) "0xF0 \<le> s0"
    by linarith
  then show ?thesis
  proof cases
    case two
    have "c < 2048"
      using dec valid hi0 two
      by (auto simp: s DecodeRuneInString_def Let_def s0_def [symmetric] split: if_splits)
    with c show ?thesis by simp
  next
    case three
    obtain c1 c2 ta where t: "t = c1 # c2 # ta"
      using dec valid hi0 three len
      by (cases t; cases "tl t")
         (auto simp: s DecodeRuneInString_def Let_def s0_def [symmetric] split: if_splits)
    define s1 :: nat where "s1 = of_char c1"
    define s2 :: nat where "s2 = of_char c2"
    have facts: "n = 3" "c = s0 mod 16 * 4096 + s1 mod 64 * 64 + s2 mod 64"
      "0x80 \<le> s1" "s1 \<le> 0xBF" "0x80 \<le> s2" "s2 \<le> 0xBF"
      using dec valid hi0 three
      by (auto simp: s t DecodeRuneInString_def Let_def s0_def [symmetric] s1_def [symmetric]
            s2_def [symmetric] split: if_splits)
    have m0: "s0 mod 16 = s0 - 14 * 16" using three by (intro low_bits) simp_all
    have m1: "s1 mod 64 = s1 - 2 * 64" using facts by (intro low_bits) simp_all
    have m2: "s2 mod 64 = s2 - 2 * 64" using facts by (intro low_bits) simp_all
    have "s0 mod 16 = 2 \<and> s1 mod 64 = 0 \<and> s2 mod 64 = 40 + d"
      using facts(2) c by (intro digits3) simp_all
    then have "s0 = 0xE2" "s1 = 0x80" "s2 = 0xA8 + d"
      using m0 m1 m2 three facts by auto
    then have "c0 = char_of (0xE2 :: nat)" "c1 = char_of (0x80 :: nat)" "c2 = char_of (0xA8 + d)"
      unfolding s0_def s1_def s2_def by (metis char_of_char)+
    moreover have "char_of (0xE2 :: nat) = CHR 0xE2" "char_of (0x80 :: nat) = CHR 0x80"
      by code_simp+
    ultimately show ?thesis
      using facts(1) by (simp add: s t)
  next
    case four
    obtain c1 ta where t: "t = c1 # ta"
      using dec valid hi0 four len
      by (cases t) (auto simp: s DecodeRuneInString_def Let_def s0_def [symmetric] split: if_splits)
    define s1 :: nat where "s1 = of_char c1"
    have facts: "s0 \<le> 0xF4" "s0 = 0xF0 \<longrightarrow> 0x90 \<le> s1" "0x80 \<le> s1" "s1 \<le> 0xBF"
      "s0 mod 8 * 262144 + s1 mod 64 * 4096 \<le> c"
      using dec valid hi0 four
      by (auto simp: s t DecodeRuneInString_def Let_def s0_def [symmetric] s1_def [symmetric]
            split: if_splits)
    have m0: "s0 mod 8 = s0 - 30 * 8" using four facts by (intro low_bits) simp_all
    have m1: "s1 mod 64 = s1 - 2 * 64" using facts by (intro low_bits) simp_all
    have "65536 \<le> s0 mod 8 * 262144 + s1 mod 64 * 4096"
      unfolding m0 m1 using four facts by (cases "s0 = 0xF0") simp_all
    with facts(5) c show ?thesis by simp
  qed
qed

lemma string_step_unquote:
  assumes ne: "s \<noteq> []" and dec: "DecodeRuneInString s = (c, n)"
    and valid: "\<not> (c = RuneError \<and> n = 1)"
  shows "snd (string_step s) = drop n s \<and>
         unquote (fst (string_step s) @ X) = map_option (apfst ((@) (take n s))) (unquote X)"
proof (cases "(of_char (hd s) :: nat) < 0x80")
  case True
  obtain b t where s: "s = b # t" using ne by (cases s) auto
  have n: "n = 1" using dec True by (simp add: s DecodeRuneInString_def Let_def)
  show ?thesis
  proof (cases "htmlSafeSet b")
    case safe: True
    then have "b \<noteq> CHR 0x22" "b \<noteq> CHR 0x5C" by (simp_all add: htmlSafeSet_def)
    then show ?thesis
      using True safe by (simp add: string_step_def s n append_one)
  next
    case False
    then show ?thesis
      using True unquote_escape [of b X] by (simp add: string_step_def s n append_one)
  qed
next
  case False
  from Decode_multi [OF dec ne valid False]
  have n: "2 \<le> n" "n \<le> length s" and high: "\<forall>x\<in>set (take n s). (0x80::nat) \<le> of_char x"
    by simp_all
  have plain: "\<forall>x\<in>set (take n s). x \<noteq> CHR 0x22 \<and> x \<noteq> CHR 0x5C"
    using high by auto
  show ?thesis
  proof (cases "c = 0x2028 \<or> c = 0x2029")
    case True
    then obtain d where d: "c = 0x2028 + d" "d < 2"
      by (auto intro: that [of 0] that [of 1])
    from Decode_2028 [OF dec d False ne]
    have three: "n = 3" "take 3 s = [CHR 0xE2, CHR 0x80, char_of (0xA8 + d)]"
      by simp_all
    have chars: "char_of (168 :: nat) = CHR 0xA8" "char_of (169 :: nat) = CHR 0xA9"
      by code_simp+
    have digit: "hex ! (c mod 16) = (if d = 0 then CHR ''8'' else CHR ''9'')"
      "char_of (0xA8 + d) = (if d = 0 then CHR 0xA8 else CHR 0xA9)"
      using d chars by (auto simp: hex_def less_2_cases_iff)
    show ?thesis
      using False True dec valid three digit
      by (auto simp: string_step_def unescape_u_def)
  next
    case other: False
    then show ?thesis
      using False dec valid unquote_plains [OF plain, of X]
      by (auto simp: string_step_def)
  qed
qed

lemma string_loop_step:
  "s \<noteq> [] \<Longrightarrow> string_loop s = fst (string_step s) @ string_loop (snd (string_step s))"
  by (subst string_loop.simps) (simp add: split_beta)

lemma unquote_string_loop:
  "utf8_ValidString s \<Longrightarrow> unquote (string_loop s @ CHR 0x22 # r) = Some (s, r)"
proof (induction s rule: utf8_ValidString.induct)
  case (1 s)
  show ?case
  proof (cases "s = []")
    case True
    then show ?thesis by simp
  next
    case False
    obtain c n where dec: "DecodeRuneInString s = (c, n)"
      by (cases "DecodeRuneInString s")
    from "1.prems" False dec
    have valid: "\<not> (c = RuneError \<and> n = 1)" and rest: "utf8_ValidString (drop n s)"
      by (subst (asm) utf8_ValidString.simps, simp)+
    from string_step_unquote [OF False dec valid, of "string_loop (drop n s) @ CHR 0x22 # r"]
    have step: "snd (string_step s) = drop n s"
      and out: "unquote (fst (string_step s) @ string_loop (drop n s) @ CHR 0x22 # r)
          = map_option (apfst ((@) (take n s))) (unquote (string_loop (drop n s) @ CHR 0x22 # r))"
      by simp_all
    have "unquote (string_loop (drop n s) @ CHR 0x22 # r) = Some (drop n s, r)"
      using "1.IH" [OF False dec [symmetric] rest] .
    then show ?thesis
      using out by (simp add: string_loop_step [OF False] step)
  qed
qed

lemma encode_string_inj:
  assumes "utf8_ValidString a" and "utf8_ValidString b"
    and "encode_string a @ r1 = encode_string b @ r2"
  shows "a = b \<and> r1 = r2"
proof -
  from assms(3) have "string_loop a @ CHR 0x22 # r1 = string_loop b @ CHR 0x22 # r2"
    by (simp add: encode_string_def)
  then have "unquote (string_loop a @ CHR 0x22 # r1) = unquote (string_loop b @ CHR 0x22 # r2)"
    by simp
  then show ?thesis
    by (simp add: unquote_string_loop assms(1,2))
qed

lemma encode_elems_Cons:
  "encode_elems (x # xs) =
     encode_string x @ (case xs of [] \<Rightarrow> [] | y # ys \<Rightarrow> CHR '','' # encode_elems xs)"
  by (cases xs) simp_all

lemma encode_elems_inj:
  assumes "list_all utf8_ValidString xs" and "list_all utf8_ValidString ys"
    and "encode_elems xs @ CHR '']'' # r1 = encode_elems ys @ CHR '']'' # r2"
  shows "xs = ys \<and> r1 = r2"
  using assms
proof (induction xs arbitrary: ys)
  case Nil
  then show ?case
    by (cases ys) (simp_all add: encode_elems_Cons encode_string_def)
next
  case (Cons x xs)
  show ?case
  proof (cases ys)
    case Nil
    with Cons.prems show ?thesis
      by (simp add: encode_elems_Cons encode_string_def)
  next
    case ys: (Cons y ys')
    let ?t1 = "(case xs of [] \<Rightarrow> [] | a # as \<Rightarrow> CHR '','' # encode_elems xs) @ CHR '']'' # r1"
    let ?t2 = "(case ys' of [] \<Rightarrow> [] | a # as \<Rightarrow> CHR '','' # encode_elems ys') @ CHR '']'' # r2"
    from Cons.prems ys have "encode_string x @ ?t1 = encode_string y @ ?t2"
      by (simp add: encode_elems_Cons)
    with Cons.prems ys have xy: "x = y" and tails: "?t1 = ?t2"
      using encode_string_inj [of x y ?t1 ?t2] by simp_all
    have "xs = ys' \<and> r1 = r2"
    proof (cases xs)
      case Nil
      with tails show ?thesis by (cases ys') simp_all
    next
      case xs: (Cons a as)
      show ?thesis
      proof (cases ys')
        case Nil
        with tails xs show ?thesis by simp
      next
        case (Cons b bs)
        with tails xs have "encode_elems xs @ CHR '']'' # r1 = encode_elems ys' @ CHR '']'' # r2"
          by simp
        then show ?thesis
          using Cons.IH [of ys'] Cons.prems ys by simp
      qed
    qed
    with xy ys show ?thesis by simp
  qed
qed

lemma encode_slice_inj:
  assumes "valid_patterns a" and "valid_patterns b"
    and "encode_slice a @ r1 = encode_slice b @ r2"
  shows "a = b \<and> r1 = r2"
proof (cases a)
  case None
  with assms(3) show ?thesis
    by (cases b) (simp_all add: encode_slice_def)
next
  case a: (Some xs)
  show ?thesis
  proof (cases b)
    case None
    with assms(3) a show ?thesis by (simp add: encode_slice_def)
  next
    case (Some ys)
    with assms a show ?thesis
      using encode_elems_inj [of xs ys r1 r2]
      by (simp add: encode_slice_def valid_patterns_def)
  qed
qed

lemma key_object_inj:
  assumes "utf8_ValidString s1" "utf8_ValidString s2"
    and "valid_patterns i1" "valid_patterns i2" "valid_patterns e1" "valid_patterns e2"
    and "key_object s1 i1 e1 = key_object s2 i2 e2"
  shows "s1 = s2 \<and> i1 = i2 \<and> e1 = e2"
proof -
  let ?inc = "'','' @ field_name ''IncludePatterns''"
  let ?exc = "'','' @ field_name ''ExcludePatterns''"
  from assms(7)
  have "encode_string s1 @ (?inc @ encode_slice i1 @ ?exc @ encode_slice e1 @ ''}'')
      = encode_string s2 @ (?inc @ encode_slice i2 @ ?exc @ encode_slice e2 @ ''}'')"
    by (simp add: key_object_def)
  from encode_string_inj [OF assms(1,2) this]
  have s: "s1 = s2"
    and "encode_slice i1 @ (?exc @ encode_slice e1 @ ''}'')
       = encode_slice i2 @ (?exc @ encode_slice e2 @ ''}'')"
    by simp_all
  from encode_slice_inj [OF assms(3,4) this(2)]
  have i: "i1 = i2" and "encode_slice e1 @ ''}'' = encode_slice e2 @ ''}''"
    by simp_all
  from encode_slice_inj [OF assms(5,6) this(2)]
  have "e1 = e2" by simp
  with s i show ?thesis by simp
qed

lemma Sum256_hex_length: "length (Sum256_hex m) = 64"
proof -
  obtain a b c d r where r: "blocks (length (sha256_pad m) div 64) sha256_init (sha256_pad m) = (a, b, c, d, r)"
    using prod_cases5 by blast
  obtain e f g h where "r = (e, f, g, h)"
    using prod_cases4 by blast
  with r show ?thesis
    by (simp add: Sum256_hex_def Let_def hex_uint32_def)
qed

lemma ascii_valid: "\<forall>c\<in>set s. (of_char c :: nat) < 0x80 \<Longrightarrow> utf8_ValidString s"
proof (induction s)
  case Nil
  show ?case by (subst utf8_ValidString.simps) simp
next
  case (Cons c s)
  then show ?case
    by (subst utf8_ValidString.simps) (simp add: DecodeRuneInString_def Let_def RuneError_def)
qed

text \<open>The objects of the two example handlers, and their digests.\<close>

lemma key_object_go_md:
  "key_object ''s1'' (Some [''*.go'', ''*.md'']) None =
     ''{'' @ field_name ''SessionID'' @ [CHR 0x22] @ ''s1'' @ [CHR 0x22] @ '','' @
     field_name ''IncludePatterns'' @ ''['' @ [CHR 0x22] @ ''*.go'' @ [CHR 0x22] @ '','' @
     [CHR 0x22] @ ''*.md'' @ [CHR 0x22] @ ''],'' @ field_name ''ExcludePatterns'' @ ''null}''"
  by (simp add: key_object_def encode_string_def encode_slice_def htmlSafeSet_def)

lemma key_object_md_go:
  "key_object ''s1'' (Some [''*.md'', ''*.go'']) None =
     ''{'' @ field_name ''SessionID'' @ [CHR 0x22] @ ''s1'' @ [CHR 0x22] @ '','' @
     field_name ''IncludePatterns'' @ ''['' @ [CHR 0x22] @ ''*.md'' @ [CHR 0x22] @ '','' @
     [CHR 0x22] @ ''*.go'' @ [CHR 0x22] @ ''],'' @ field_name ''ExcludePatterns'' @ ''null}''"
  by (simp add: key_object_def encode_string_def encode_slice_def htmlSafeSet_def)

lemma digest_go_md:
  "Sum256_hex
     (''{'' @ field_name ''SessionID'' @ [CHR 0x22] @ ''s1'' @ [CHR 0x22] @ '','' @
      field_name ''IncludePatterns'' @ ''['' @ [CHR 0x22] @ ''*.go'' @ [CHR 0x22] @ '','' @
      [CHR 0x22] @ ''*.md'' @ [CHR 0x22] @ ''],'' @ field_name ''ExcludePatterns'' @ ''null}'')
   = ''1ab201a9fcfe7fa7fac2fbe61cf0129497925f9671e395658ba1377121f40707''"
  by code_simp

lemma digest_md_go:
  "Sum256_hex
     (''{'' @ field_name ''SessionID'' @ [CHR 0x22] @ ''s1'' @ [CHR 0x22] @ '','' @
      field_name ''IncludePatterns'' @ ''['' @ [CHR 0x22] @ ''*.md'' @ [CHR 0x22] @ '','' @
      [CHR 0x22] @ ''*.go'' @ [CHR 0x22] @ ''],'' @ field_name ''ExcludePatterns'' @ ''null}'')
   = ''05a42043ac962231afa2180a92fe952b2a6ae6d5bf70e50edc11cd54af8f8a62''"
  by code_simp

text \<open>
  C8, as amended. For two handlers with a resolved session id, whose session ids and
  patterns are valid UTF-8: the cache keys are equal exactly when the names are equal and
  the SHA-256 digests of the two serialisations are equal; and the serialisations are
  equal exactly when the session ids and both pattern lists, order included, are equal.
  So the key is the same for the same tuple, and changing one field changes the key
  unless SHA-256 gives the two serialisations the same digest.
\<close>

theorem CacheKey_changes_with_tuple:
  assumes "resolved_session a ca \<noteq> []" and "resolved_session b cb \<noteq> []"
    and "utf8_ValidString (resolved_session a ca)" and "utf8_ValidString (resolved_session b cb)"
    and "valid_patterns (IncludePatterns (src a))" and "valid_patterns (IncludePatterns (src b))"
    and "valid_patterns (ExcludePatterns (src a))" and "valid_patterns (ExcludePatterns (src b))"
  shows "(CacheKey a ca = CacheKey b cb \<longleftrightarrow>
            Name (src a) = Name (src b) \<and>
            Sum256_hex (key_object (resolved_session a ca) (IncludePatterns (src a))
                          (ExcludePatterns (src a)))
              = Sum256_hex (key_object (resolved_session b cb) (IncludePatterns (src b))
                              (ExcludePatterns (src b)))) \<and>
         (key_object (resolved_session a ca) (IncludePatterns (src a)) (ExcludePatterns (src a))
            = key_object (resolved_session b cb) (IncludePatterns (src b)) (ExcludePatterns (src b))
          \<longleftrightarrow>
            resolved_session a ca = resolved_session b cb \<and>
            IncludePatterns (src a) = IncludePatterns (src b) \<and>
            ExcludePatterns (src a) = ExcludePatterns (src b))"
proof
  let ?ha = "Sum256_hex (key_object (resolved_session a ca) (IncludePatterns (src a))
                          (ExcludePatterns (src a)))"
  let ?hb = "Sum256_hex (key_object (resolved_session b cb) (IncludePatterns (src b))
                          (ExcludePatterns (src b)))"
  have "Name (src a) @ ('':sha256:'' @ ?ha) = Name (src b) @ ('':sha256:'' @ ?hb) \<longleftrightarrow>
        Name (src a) = Name (src b) \<and> '':sha256:'' @ ?ha = '':sha256:'' @ ?hb"
    by (rule append_eq_append_conv) (simp add: Sum256_hex_length)
  then show "CacheKey a ca = CacheKey b cb \<longleftrightarrow> Name (src a) = Name (src b) \<and> ?ha = ?hb"
    using assms(1,2) by (simp add: CacheKey_resolved digest_FromBytes_def)
next
  show "key_object (resolved_session a ca) (IncludePatterns (src a)) (ExcludePatterns (src a))
            = key_object (resolved_session b cb) (IncludePatterns (src b)) (ExcludePatterns (src b))
          \<longleftrightarrow>
            resolved_session a ca = resolved_session b cb \<and>
            IncludePatterns (src a) = IncludePatterns (src b) \<and>
            ExcludePatterns (src a) = ExcludePatterns (src b)"
    using key_object_inj [OF assms(3,4,5,6,7,8)] by auto
qed

text \<open>
  Reordering the include patterns: the two keys, with their digests computed, differ.
\<close>

theorem reordering_patterns_changes_key:
  "CacheKey work_go_md (Ctx ''s1'') =
     Inr ''session:work:sha256:1ab201a9fcfe7fa7fac2fbe61cf0129497925f9671e395658ba1377121f40707'' \<and>
   CacheKey work_md_go (Ctx ''s1'') =
     Inr ''session:work:sha256:05a42043ac962231afa2180a92fe952b2a6ae6d5bf70e50edc11cd54af8f8a62'' \<and>
   CacheKey work_go_md (Ctx ''s1'') \<noteq> CacheKey work_md_go (Ctx ''s1'')"
proof -
  have r: "resolved_session work_go_md (Ctx ''s1'') = ''s1''"
    "resolved_session work_md_go (Ctx ''s1'') = ''s1''"
    by (simp_all add: resolved_session_def work_go_md_def work_md_go_def)
  have f: "Name (src work_go_md) = ''work''" "Name (src work_md_go) = ''work''"
    "IncludePatterns (src work_go_md) = Some [''*.go'', ''*.md'']"
    "IncludePatterns (src work_md_go) = Some [''*.md'', ''*.go'']"
    "ExcludePatterns (src work_go_md) = None" "ExcludePatterns (src work_md_go) = None"
    by (simp_all add: work_go_md_def work_md_go_def)
  have v: "utf8_ValidString ''s1''" "valid_patterns (Some [''*.go'', ''*.md''])"
    "valid_patterns (Some [''*.md'', ''*.go''])" "valid_patterns None"
    by (simp_all add: ascii_valid valid_patterns_def)
  have d: "Sum256_hex (key_object ''s1'' (Some [''*.go'', ''*.md'']) None)
      = ''1ab201a9fcfe7fa7fac2fbe61cf0129497925f9671e395658ba1377121f40707''"
    "Sum256_hex (key_object ''s1'' (Some [''*.md'', ''*.go'']) None)
      = ''05a42043ac962231afa2180a92fe952b2a6ae6d5bf70e50edc11cd54af8f8a62''"
    by (simp_all only: key_object_go_md key_object_md_go digest_go_md digest_md_go)
  have keys: "CacheKey work_go_md (Ctx ''s1'') =
      Inr ''session:work:sha256:1ab201a9fcfe7fa7fac2fbe61cf0129497925f9671e395658ba1377121f40707''"
    "CacheKey work_md_go (Ctx ''s1'') =
      Inr ''session:work:sha256:05a42043ac962231afa2180a92fe952b2a6ae6d5bf70e50edc11cd54af8f8a62''"
    by (simp_all add: CacheKey_resolved r f d digest_FromBytes_def)
  have "CacheKey work_go_md (Ctx ''s1'') \<noteq> CacheKey work_md_go (Ctx ''s1'')"
    using CacheKey_changes_with_tuple [of work_go_md "Ctx ''s1''" work_md_go "Ctx ''s1''"]
    by (simp add: r f v d)
  with keys show ?thesis by simp
qed

text \<open>
  C8 as stated fails where the encoder loses information: the bytes 0xFF and 0xFE are
  both invalid UTF-8 and are both written as the escape of U+FFFD, so two session ids
  that differ in them have the same cache key.
\<close>

lemma invalid_byte:
  "\<not> (of_char b :: nat) < 0x80 \<Longrightarrow> (of_char b :: nat) < 0xC2 \<or> 0xF4 < (of_char b :: nat) \<Longrightarrow>
     string_loop [b] = [CHR 0x5C, CHR ''u'', CHR ''f'', CHR ''f'', CHR ''f'', CHR ''d'']"
  by (subst string_loop.simps) (simp add: string_step_def DecodeRuneInString_def Let_def)

theorem invalid_bytes_share_a_key:
  "CacheKey \<lparr>src = \<lparr>Name = ''work'', SessionID = [CHR 0xFF], IncludePatterns = None,
                     ExcludePatterns = None, SharedKeyHint = []\<rparr>, ld = Map.empty\<rparr> (Ctx [])
   = CacheKey \<lparr>src = \<lparr>Name = ''work'', SessionID = [CHR 0xFE], IncludePatterns = None,
                     ExcludePatterns = None, SharedKeyHint = []\<rparr>, ld = Map.empty\<rparr> (Ctx [])
   \<and> [CHR 0xFF] \<noteq> [CHR 0xFE]"
proof -
  have "encode_string [CHR 0xFF] = encode_string [CHR 0xFE]"
    by (simp add: encode_string_def invalid_byte)
  then show ?thesis
    by (simp add: CacheKey_resolved resolved_session_def key_object_def)
qed

end
